theory Spec2Isabelle
  imports Complex_Main "HOL-Library.Char_ord" "HOL-Library.List_Lexorder" "HOL-Library.Product_Lexorder"
begin

section \<open>Python strings\<close>

text \<open>
  Strings are modelled as lists of 8-bit characters and the development is about ASCII
  text: \<open>lower\<close> maps \<open>A..Z\<close> to \<open>a..z\<close> and leaves every other character alone,
  \<open>strip\<close> removes the ASCII characters for which Python's \<open>str.isspace\<close> holds.
\<close>

definition lower_char :: "char \<Rightarrow> char" where
  "lower_char c =
     (let n = (of_char c :: nat) in if 65 \<le> n \<and> n \<le> 90 then char_of (n + 32) else c)"

definition lower :: "string \<Rightarrow> string" where
  "lower s = map lower_char s"

definition isspace :: "char \<Rightarrow> bool" where
  "isspace c = (let n = (of_char c :: nat) in (9 \<le> n \<and> n \<le> 13) \<or> (28 \<le> n \<and> n \<le> 32))"

definition strip :: "string \<Rightarrow> string" where
  "strip s = rev (dropWhile isspace (rev (dropWhile isspace s)))"

definition digit_char :: "nat \<Rightarrow> char" where
  "digit_char d = ''0123456789'' ! d"

fun str_nat :: "nat \<Rightarrow> string" where
  "str_nat n = (if n < 10 then [digit_char n] else str_nat (n div 10) @ [digit_char (n mod 10)])"

text \<open>\<open>str(i)\<close> and the \<open>{i}\<close> of an f-string, for an integer.\<close>

definition str_int :: "int \<Rightarrow> string" where
  "str_int i = (if i < 0 then CHR ''-'' # str_nat (nat (- i)) else str_nat (nat i))"

section \<open>Exceptions\<close>

text \<open>
  The exceptions the modelled code raises. \<open>ServiceError\<close> stands for any other
  subclass of \<open>Exception\<close> raised by an external service (transcription, the language
  model, speech synthesis); it carries the text \<open>str(exc)\<close>.
\<close>

datatype exn =
    KeyError string
  | ValueError string
  | RecordingError string
  | ServiceError string
  | CancelledError

text \<open>
  \<open>repr\<close> of an ASCII string: double quotes when the string holds a single quote and no
  double quote, single quotes otherwise; the quote and the backslash are escaped, control
  characters are written \<open>\t\<close>, \<open>\n\<close>, \<open>\r\<close> or \<open>\xhh\<close>.
\<close>

definition hex_digit :: "nat \<Rightarrow> char" where
  "hex_digit d = ''0123456789abcdef'' ! d"

definition repr_char :: "char \<Rightarrow> char \<Rightarrow> string" where
  "repr_char q c =
     (let n = (of_char c :: nat) in
      if c = q \<or> n = 92 then [CHR 0x5C, c]
      else if n = 9 then [CHR 0x5C, CHR ''t'']
      else if n = 10 then [CHR 0x5C, CHR ''n'']
      else if n = 13 then [CHR 0x5C, CHR ''r'']
      else if n < 32 \<or> n = 127 then [CHR 0x5C, CHR ''x'', hex_digit (n div 16), hex_digit (n mod 16)]
      else [c])"

definition py_repr :: "string \<Rightarrow> string" where
  "py_repr s =
     (let q = (if CHR 0x27 \<in> set s \<and> CHR 0x22 \<notin> set s then CHR 0x22 else CHR 0x27)
      in q # concat (map (repr_char q) s) @ [q])"

text \<open>\<open>str(exc)\<close>: a \<open>KeyError\<close> shows the \<open>repr\<close> of its argument, the others the message they were built with.\<close>

definition exn_str :: "exn \<Rightarrow> string" where
  "exn_str e =
     (case e of
        KeyError m \<Rightarrow> py_repr m
      | ValueError m \<Rightarrow> m
      | RecordingError m \<Rightarrow> m
      | ServiceError m \<Rightarrow> m
      | CancelledError \<Rightarrow> [])"

section \<open>Game state: player, inventory, stock ledger\<close>

text \<open>\<open>inventory/manager.py\<close>: three dictionaries from item name to count, and the equipped items.\<close>

record inventory =
  weapons :: "string \<rightharpoonup> int"
  shields :: "string \<rightharpoonup> int"
  potions :: "string \<rightharpoonup> int"
  equipped_weapon :: "string option"
  equipped_shield :: "string option"

text \<open>The fields of \<open>Player\<close> (\<open>entities/player.py\<close>) that the shop reads or writes.\<close>

record player =
  player_name :: string
  gold :: int
  inv :: inventory

text \<open>The state the shop scene works on: \<open>app.player\<close>, \<open>app.merchant_stock\<close> and \<open>scene.feedback\<close>.\<close>

record game =
  the_player :: player
  merchant_stock :: "string \<rightharpoonup> int"
  feedback :: string

text \<open>A catalog entry: one dictionary of \<open>ShopScene._build_items\<close>.\<close>

record item =
  it_name :: string
  it_type :: string
  it_price :: int
  it_sprite :: string
  it_stock_key :: "string option"
  it_bonus :: string

text \<open>\<open>voice/assistant.py\<close>: the dataclass \<open>PurchaseOutcome\<close>.\<close>

record PurchaseOutcome =
  success :: bool
  item_name :: "string option"
  message :: string
  price_paid :: "int option"

definition WEAPONS :: "(string \<times> int) list" where
  "WEAPONS = [(''Short Sword'', 50), (''Steel Sword'', 120)]"

definition SHIELDS :: "(string \<times> int) list" where
  "SHIELDS = [(''Wooden Shield'', 40), (''Iron Shield'', 110)]"

definition POTIONS :: "(string \<times> int) list" where
  "POTIONS = [(''Heal Potion'', 20), (''Mana Potion'', 20)]"

text \<open>\<open>InventoryManager.__init__\<close>: every known name with count 0, nothing equipped.\<close>

definition InventoryManager :: inventory where
  "InventoryManager =
     \<lparr> weapons = map_of (map (\<lambda>(n, _). (n, 0)) WEAPONS),
       shields = map_of (map (\<lambda>(n, _). (n, 0)) SHIELDS),
       potions = map_of (map (\<lambda>(n, _). (n, 0)) POTIONS),
       equipped_weapon = None,
       equipped_shield = None \<rparr>"

definition add_weapon :: "string \<Rightarrow> inventory \<Rightarrow> exn + inventory" where
  "add_weapon n i =
     (case weapons i n of
        None \<Rightarrow> Inl (KeyError (''Unknown weapon: '' @ n))
      | Some c \<Rightarrow> Inr (i\<lparr>weapons := (weapons i)(n \<mapsto> c + 1)\<rparr>))"

definition add_shield :: "string \<Rightarrow> inventory \<Rightarrow> exn + inventory" where
  "add_shield n i =
     (case shields i n of
        None \<Rightarrow> Inl (KeyError (''Unknown shield: '' @ n))
      | Some c \<Rightarrow> Inr (i\<lparr>shields := (shields i)(n \<mapsto> c + 1)\<rparr>))"

definition add_potion :: "string \<Rightarrow> int \<Rightarrow> inventory \<Rightarrow> exn + inventory" where
  "add_potion n amount i =
     (case potions i n of
        None \<Rightarrow> Inl (KeyError (''Unknown potion: '' @ n))
      | Some c \<Rightarrow> Inr (i\<lparr>potions := (potions i)(n \<mapsto> c + amount)\<rparr>))"

text \<open>\<open>d.get(k, 0)\<close> on a dictionary of integers.\<close>

definition get0 :: "(string \<rightharpoonup> int) \<Rightarrow> string \<Rightarrow> int" where
  "get0 d k = (case d k of None \<Rightarrow> 0 | Some v \<Rightarrow> v)"

definition equip_weapon :: "string \<Rightarrow> inventory \<Rightarrow> exn + inventory" where
  "equip_weapon n i =
     (if get0 (weapons i) n \<le> 0 then Inl (ValueError (''Weapon '' @ n @ '' not owned''))
      else Inr (i\<lparr>equipped_weapon := Some n\<rparr>))"

definition equip_shield :: "string \<Rightarrow> inventory \<Rightarrow> exn + inventory" where
  "equip_shield n i =
     (if get0 (shields i) n \<le> 0 then Inl (ValueError (''Shield '' @ n @ '' not owned''))
      else Inr (i\<lparr>equipped_shield := Some n\<rparr>))"

text \<open>\<open>Player.spend_gold\<close>: the updated player and the returned flag.\<close>

definition spend_gold :: "int \<Rightarrow> player \<Rightarrow> player \<times> bool" where
  "spend_gold amount p =
     (if gold p \<ge> amount then (p\<lparr>gold := gold p - amount\<rparr>, True) else (p, False))"

section \<open>The purchase resolver (\<open>scenes/shop_scene.py\<close>)\<close>

text \<open>
  The branch of \<open>_attempt_purchase\<close> that hands the item over, on the inventory. An
  exception leaves the inventory as it was when the exception was raised, so the result is
  the inventory reached together with the exception, if any.
\<close>

definition grant :: "item \<Rightarrow> inventory \<Rightarrow> inventory \<times> exn option" where
  "grant it i =
     (if it_type it = ''weapon'' then
        (case add_weapon (it_name it) i of
           Inl e \<Rightarrow> (i, Some e)
         | Inr i1 \<Rightarrow>
             if equipped_weapon i1 = None then
               (case equip_weapon (it_name it) i1 of
                  Inl e \<Rightarrow> (i1, Some e)
                | Inr i2 \<Rightarrow> (i2, None))
             else (i1, None))
      else if it_type it = ''shield'' then
        (case add_shield (it_name it) i of
           Inl e \<Rightarrow> (i, Some e)
         | Inr i1 \<Rightarrow>
             if equipped_shield i1 = None then
               (case equip_shield (it_name it) i1 of
                  Inl e \<Rightarrow> (i1, Some e)
                | Inr i2 \<Rightarrow> (i2, None))
             else (i1, None))
      else
        (case add_potion (it_name it) 1 i of
           Inl e \<Rightarrow> (i, Some e)
         | Inr i1 \<Rightarrow> (i1, None)))"

text \<open>Python's truth value of \<open>item.get("stock_key")\<close>: \<open>None\<close> and the empty string are false.\<close>

definition truthy :: "string option \<Rightarrow> bool" where
  "truthy k = (case k of None \<Rightarrow> False | Some s \<Rightarrow> s \<noteq> [])"

text \<open>
  \<open>ShopScene._attempt_purchase\<close>. The result is the state after the call and either the
  exception that left the method or the returned outcome. The calls of \<open>assets.play_sound\<close>
  touch nothing of the state and are left out.
\<close>

definition attempt_purchase :: "item \<Rightarrow> game \<Rightarrow> game \<times> (exn + PurchaseOutcome)" where
  "attempt_purchase it g =
     (let stock_key = it_stock_key it;
          price = it_price it;
          remaining = (if truthy stock_key then Some (get0 (merchant_stock g) (the stock_key)) else None)
      in
      if truthy stock_key \<and> remaining \<noteq> None \<and> the remaining \<le> 0 then
        (g, Inr \<lparr> success = False, item_name = Some (it_name it),
                   message = it_name it @ '' is out of stock!'', price_paid = None \<rparr>)
      else
        (case spend_gold price (the_player g) of
           (p, False) \<Rightarrow>
             (g, Inr \<lparr> success = False, item_name = Some (it_name it),
                        message = ''Not enough gold for '' @ str_int (it_price it) @ ''g.'',
                        price_paid = None \<rparr>)
         | (p, True) \<Rightarrow>
             (case grant it (inv p) of
                (i, Some e) \<Rightarrow> (g\<lparr>the_player := p\<lparr>inv := i\<rparr>\<rparr>, Inl e)
              | (i, None) \<Rightarrow>
                  (let g1 = g\<lparr>the_player := p\<lparr>inv := i\<rparr>\<rparr>;
                       g2 = (if truthy stock_key
                             then g1\<lparr>merchant_stock := (merchant_stock g1)
                                      (the stock_key \<mapsto> max 0 ((case remaining of None \<Rightarrow> 0 | Some r \<Rightarrow> r) - 1))\<rparr>
                             else g1)
                   in (g2, Inr \<lparr> success = True, item_name = Some (it_name it),
                                  message = ''Bought '' @ it_name it @ '' for '' @ str_int price @ ''g.'',
                                  price_paid = Some price \<rparr>)))))"

section \<open>The standard library's \<open>difflib\<close>, as \<open>_resolve_item_name\<close> uses it\<close>

text \<open>
  The definitions of this section follow the source of the module \<open>difflib\<close> (and of
  \<open>heapq.nlargest\<close>) in CPython 3.11.
  \<open>get_close_matches\<close> builds one \<open>SequenceMatcher()\<close> (no junk predicate, \<open>autojunk\<close> on),
  sets its second sequence \<open>b\<close> to the word and its first sequence \<open>a\<close> to each
  possibility in turn. Indices are natural numbers; \<open>Suc i - k\<close> below is Python's
  \<open>i-k+1\<close>, which is never negative (lemma \<open>flm_step_exact\<close>).
\<close>

definition indices_of :: "char \<Rightarrow> string \<Rightarrow> nat list" where
  "indices_of c b = filter (\<lambda>j. b ! j = c) [0..<length b]"

text \<open>\<open>__chain_b\<close>: with 200 or more elements, an element that occurs more than \<open>n // 100 + 1\<close> times is popular and loses its entry.\<close>

definition popular :: "string \<Rightarrow> char \<Rightarrow> bool" where
  "popular b c = (length b \<ge> 200 \<and> length (indices_of c b) > length b div 100 + 1)"

text \<open>\<open>b2j.get(c, [])\<close>: the positions of \<open>c\<close> in \<open>b\<close>, in increasing order.\<close>

definition b2j :: "string \<Rightarrow> char \<Rightarrow> nat list" where
  "b2j b c = (if popular b c then [] else indices_of c b)"

text \<open>\<open>bjunk\<close> is the empty set when no junk predicate is given.\<close>

definition isbjunk :: "string \<Rightarrow> char \<Rightarrow> bool" where
  "isbjunk b c = False"

type_synonym match = "nat \<times> nat \<times> nat"

text \<open>The body of the inner loop of \<open>find_longest_match\<close>, for one \<open>j\<close> with \<open>blo \<le> j < bhi\<close>.\<close>

definition flm_step ::
  "(nat \<rightharpoonup> nat) \<Rightarrow> nat \<Rightarrow> nat \<Rightarrow> (nat \<rightharpoonup> nat) \<times> match \<Rightarrow> (nat \<rightharpoonup> nat) \<times> match" where
  "flm_step j2len i j st =
     (case st of (newj2len, (besti, bestj, bestsize)) \<Rightarrow>
        (let k = (if j = 0 then 0 else (case j2len (j - 1) of None \<Rightarrow> 0 | Some v \<Rightarrow> v)) + 1
         in if k > bestsize then (newj2len(j \<mapsto> k), (Suc i - k, Suc j - k, k))
            else (newj2len(j \<mapsto> k), (besti, bestj, bestsize))))"

text \<open>\<open>for j in b2j.get(a[i], nothing)\<close>, with its \<open>continue\<close> and \<open>break\<close>.\<close>

fun flm_inner ::
  "(nat \<rightharpoonup> nat) \<Rightarrow> nat \<Rightarrow> nat \<Rightarrow> nat \<Rightarrow> nat list \<Rightarrow> (nat \<rightharpoonup> nat) \<times> match \<Rightarrow> (nat \<rightharpoonup> nat) \<times> match" where
  "flm_inner j2len i blo bhi [] st = st"
| "flm_inner j2len i blo bhi (j # js) st =
     (if j < blo then flm_inner j2len i blo bhi js st
      else if j \<ge> bhi then st
      else flm_inner j2len i blo bhi js (flm_step j2len i j st))"

text \<open>\<open>for i in range(alo, ahi)\<close>: the state is \<open>j2len\<close> and the best match so far.\<close>

function flm_outer ::
  "string \<Rightarrow> string \<Rightarrow> nat \<Rightarrow> nat \<Rightarrow> nat \<Rightarrow> nat \<Rightarrow> (nat \<rightharpoonup> nat) \<times> match \<Rightarrow> (nat \<rightharpoonup> nat) \<times> match" where
  "flm_outer a b blo bhi i ahi st =
     (if i < ahi then
        flm_outer a b blo bhi (Suc i) ahi
          (flm_inner (fst st) i blo bhi (b2j b (a ! i)) (Map.empty, snd st))
      else st)"
  by pat_completeness auto
termination
  by (relation "measure (\<lambda>(a, b, blo, bhi, i, ahi, st). ahi - i)") auto

text \<open>
  The four \<open>while\<close> loops that extend the match: to the left and to the right, first over
  elements that are not junk (\<open>want = False\<close>), then over junk (\<open>want = True\<close>).
\<close>

function extend_left ::
  "(char \<Rightarrow> bool) \<Rightarrow> bool \<Rightarrow> string \<Rightarrow> string \<Rightarrow> nat \<Rightarrow> nat \<Rightarrow> nat \<Rightarrow> nat \<Rightarrow> nat \<Rightarrow> match" where
  "extend_left junk want a b alo blo besti bestj bestsize =
     (if besti > alo \<and> bestj > blo \<and> junk (b ! (bestj - 1)) = want
         \<and> a ! (besti - 1) = b ! (bestj - 1)
      then extend_left junk want a b alo blo (besti - 1) (bestj - 1) (bestsize + 1)
      else (besti, bestj, bestsize))"
  by pat_completeness auto
termination
  by (relation "measure (\<lambda>(junk, want, a, b, alo, blo, besti, bestj, bestsize). besti)") auto

function extend_right ::
  "(char \<Rightarrow> bool) \<Rightarrow> bool \<Rightarrow> string \<Rightarrow> string \<Rightarrow> nat \<Rightarrow> nat \<Rightarrow> nat \<Rightarrow> nat \<Rightarrow> nat \<Rightarrow> match" where
  "extend_right junk want a b ahi bhi besti bestj bestsize =
     (if besti + bestsize < ahi \<and> bestj + bestsize < bhi \<and> junk (b ! (bestj + bestsize)) = want
         \<and> a ! (besti + bestsize) = b ! (bestj + bestsize)
      then extend_right junk want a b ahi bhi besti bestj (bestsize + 1)
      else (besti, bestj, bestsize))"
  by pat_completeness auto
termination
  by (relation "measure (\<lambda>(junk, want, a, b, ahi, bhi, besti, bestj, bestsize). ahi - (besti + bestsize))") auto

declare flm_outer.simps [simp del] extend_left.simps [simp del] extend_right.simps [simp del]

definition find_longest_match :: "string \<Rightarrow> string \<Rightarrow> nat \<Rightarrow> nat \<Rightarrow> nat \<Rightarrow> nat \<Rightarrow> match" where
  "find_longest_match a b alo ahi blo bhi =
     (case snd (flm_outer a b blo bhi alo ahi (Map.empty, (alo, blo, 0))) of (i0, j0, k0) \<Rightarrow>
      case extend_left (isbjunk b) False a b alo blo i0 j0 k0 of (i1, j1, k1) \<Rightarrow>
      case extend_right (isbjunk b) False a b ahi bhi i1 j1 k1 of (i2, j2, k2) \<Rightarrow>
      case extend_left (isbjunk b) True a b alo blo i2 j2 k2 of (i3, j3, k3) \<Rightarrow>
      extend_right (isbjunk b) True a b ahi bhi i3 j3 k3)"

text \<open>
  Where the match found lies: it starts at or after \<open>alo\<close>, an empty match is the initial
  \<open>(alo, blo, 0)\<close>, and a match that is not empty ends at or before \<open>ahi\<close>. The loop
  of \<open>get_matching_blocks\<close> terminates because of this.
\<close>

definition in_window :: "nat \<Rightarrow> nat \<Rightarrow> match \<Rightarrow> bool" where
  "in_window alo ahi m = (case m of (i, j, k) \<Rightarrow> alo \<le> i \<and> (if k = 0 then i = alo else i + k \<le> ahi))"

text \<open>
  The lengths that \<open>j2len\<close> holds for a row: a run that ends in row \<open>n - 1\<close> and column
  \<open>j\<close> is no longer than \<open>n - alo\<close> and than \<open>j + 1\<close>. So the new length \<open>k\<close> of the
  inner loop is at most \<open>i + 1\<close> and \<open>j + 1\<close>, and \<open>Suc i - k\<close> and \<open>Suc j - k\<close> are
  Python's \<open>i-k+1\<close> and \<open>j-k+1\<close>.
\<close>

definition row_ok :: "nat \<Rightarrow> nat \<Rightarrow> (nat \<rightharpoonup> nat) \<Rightarrow> bool" where
  "row_ok alo n j2len = (\<forall>j v. j2len j = Some v \<longrightarrow> v + alo \<le> n \<and> v \<le> Suc j)"

lemma row_ok_prev:
  assumes "row_ok alo n j2len" and "0 < j" and "j2len (j - 1) = Some v"
  shows "v + alo \<le> n \<and> v \<le> j"
proof -
  from assms(1,3) have "v + alo \<le> n \<and> v \<le> Suc (j - 1)"
    unfolding row_ok_def by blast
  with assms(2) show ?thesis by simp
qed

lemma flm_step_exact:
  assumes "row_ok alo i j2len" and "alo \<le> i"
    and "k = (if j = 0 then 0 else (case j2len (j - 1) of None \<Rightarrow> 0 | Some v \<Rightarrow> v)) + 1"
  shows "int (Suc i - k) = int i - int k + 1 \<and> int (Suc j - k) = int j - int k + 1"
proof -
  have "k + alo \<le> Suc i" and "k \<le> Suc j"
    using assms(2,3) row_ok_prev[OF assms(1), of j] by (auto split: option.splits)
  then show ?thesis by auto
qed

lemma flm_step_inv:
  assumes "row_ok alo i j2len" "alo \<le> i" "i < ahi" "row_ok alo (Suc i) (fst st)" "in_window alo ahi (snd st)"
  shows "row_ok alo (Suc i) (fst (flm_step j2len i j st)) \<and> in_window alo ahi (snd (flm_step j2len i j st))"
proof -
  obtain n bi bj bs where st: "st = (n, (bi, bj, bs))" by (cases st) auto
  define k where "k = (if j = 0 then 0 else (case j2len (j - 1) of None \<Rightarrow> 0 | Some v \<Rightarrow> v)) + 1"
  have kb: "k + alo \<le> Suc i" "0 < k" "k \<le> Suc j"
    using assms(2) row_ok_prev[OF assms(1), of j] unfolding k_def by (auto split: option.splits)
  show ?thesis
    using assms(3,4,5) kb unfolding st flm_step_def k_def[symmetric] Let_def
    by (auto simp: row_ok_def in_window_def)
qed

lemma flm_inner_inv:
  assumes "row_ok alo i j2len" "alo \<le> i" "i < ahi"
  shows "row_ok alo (Suc i) (fst st) \<Longrightarrow> in_window alo ahi (snd st) \<Longrightarrow>
         row_ok alo (Suc i) (fst (flm_inner j2len i blo bhi js st)) \<and> in_window alo ahi (snd (flm_inner j2len i blo bhi js st))"
proof (induction js arbitrary: st)
  case Nil
  then show ?case by simp
next
  case (Cons j js)
  show ?case
    using Cons.prems Cons.IH flm_step_inv[OF assms, of st j] by auto
qed

lemma flm_outer_inv:
  "alo \<le> i \<Longrightarrow> row_ok alo i (fst st) \<Longrightarrow> in_window alo ahi (snd st) \<Longrightarrow>
   in_window alo ahi (snd (flm_outer a b blo bhi i ahi st))"
proof (induction a b blo bhi i ahi st rule: flm_outer.induct)
  case (1 a b blo bhi i ahi st)
  show ?case
  proof (cases "i < ahi")
    case True
    have e: "row_ok alo (Suc i) (fst (Map.empty, snd st))" by (simp add: row_ok_def)
    have w: "in_window alo ahi (snd (Map.empty :: nat \<rightharpoonup> nat, snd st))" using "1.prems" by simp
    from flm_inner_inv[OF "1.prems"(2) "1.prems"(1) True e w]
    have "row_ok alo (Suc i) (fst (flm_inner (fst st) i blo bhi (b2j b (a ! i)) (Map.empty, snd st)))"
      and "in_window alo ahi (snd (flm_inner (fst st) i blo bhi (b2j b (a ! i)) (Map.empty, snd st)))"
      by auto
    with "1.IH"[OF True] "1.prems"(1) True show ?thesis
      by (subst flm_outer.simps) simp
  next
    case False
    then show ?thesis using "1.prems" by (subst flm_outer.simps) simp
  qed
qed

lemma extend_left_inv:
  "in_window alo ahi (bi, bj, bs) \<Longrightarrow> in_window alo ahi (extend_left junk want a b alo blo bi bj bs)"
proof (induction junk want a b alo blo bi bj bs rule: extend_left.induct)
  case (1 junk want a b alo blo bi bj bs)
  show ?case
  proof (cases "bi > alo \<and> bj > blo \<and> junk (b ! (bj - 1)) = want \<and> a ! (bi - 1) = b ! (bj - 1)")
    case True
    have "in_window alo ahi (bi - 1, bj - 1, bs + 1)"
      using "1.prems" True unfolding in_window_def by (auto split: if_splits)
    with "1.IH"[OF True] True show ?thesis
      by (subst extend_left.simps) simp
  next
    case False
    then show ?thesis using "1.prems" by (subst extend_left.simps) auto
  qed
qed

lemma extend_right_inv:
  "in_window alo ahi (bi, bj, bs) \<Longrightarrow> in_window alo ahi (extend_right junk want a b ahi bhi bi bj bs)"
proof (induction junk want a b ahi bhi bi bj bs rule: extend_right.induct)
  case (1 junk want a b ahi bhi bi bj bs)
  show ?case
  proof (cases "bi + bs < ahi \<and> bj + bs < bhi \<and> junk (b ! (bj + bs)) = want \<and> a ! (bi + bs) = b ! (bj + bs)")
    case True
    have "in_window alo ahi (bi, bj, bs + 1)"
      using "1.prems" True unfolding in_window_def by (auto split: if_splits)
    with "1.IH"[OF True] True show ?thesis
      by (subst extend_right.simps) simp
  next
    case False
    then show ?thesis using "1.prems" by (subst extend_right.simps) auto
  qed
qed

lemma find_longest_match_window:
  "in_window alo ahi (find_longest_match a b alo ahi blo bhi)"
proof -
  obtain i0 j0 k0 where m0: "snd (flm_outer a b blo bhi alo ahi (Map.empty, (alo, blo, 0))) = (i0, j0, k0)"
    by (metis prod_cases3)
  obtain i1 j1 k1 where m1: "extend_left (isbjunk b) False a b alo blo i0 j0 k0 = (i1, j1, k1)"
    by (metis prod_cases3)
  obtain i2 j2 k2 where m2: "extend_right (isbjunk b) False a b ahi bhi i1 j1 k1 = (i2, j2, k2)"
    by (metis prod_cases3)
  obtain i3 j3 k3 where m3: "extend_left (isbjunk b) True a b alo blo i2 j2 k2 = (i3, j3, k3)"
    by (metis prod_cases3)
  have "in_window alo ahi (snd (flm_outer a b blo bhi alo ahi (Map.empty, (alo, blo, 0))))"
    by (rule flm_outer_inv) (simp_all add: row_ok_def in_window_def)
  then have w0: "in_window alo ahi (i0, j0, k0)" by (simp add: m0)
  have w1: "in_window alo ahi (i1, j1, k1)"
    unfolding m1[symmetric] using w0 by (rule extend_left_inv)
  have w2: "in_window alo ahi (i2, j2, k2)"
    unfolding m2[symmetric] using w1 by (rule extend_right_inv)
  have w3: "in_window alo ahi (i3, j3, k3)"
    unfolding m3[symmetric] using w2 by (rule extend_left_inv)
  have "in_window alo ahi (extend_right (isbjunk b) True a b ahi bhi i3 j3 k3)"
    using w3 by (rule extend_right_inv)
  then show ?thesis
    unfolding find_longest_match_def by (simp add: m0 m1 m2 m3)
qed


text \<open>
  The \<open>while queue\<close> loop of \<open>get_matching_blocks\<close>. The queue is a Python list used as a
  stack (\<open>queue.pop()\<close> takes the last element, \<open>append\<close> adds behind it); the model keeps
  the top of the stack at the head of the list.
\<close>

function matching_loop ::
  "string \<Rightarrow> string \<Rightarrow> (nat \<times> nat \<times> nat \<times> nat) list \<Rightarrow> match list \<Rightarrow> match list" where
  "matching_loop a b [] blocks = blocks"
| "matching_loop a b ((alo, ahi, blo, bhi) # queue) blocks =
     (case find_longest_match a b alo ahi blo bhi of (i, j, k) \<Rightarrow>
        if k \<noteq> 0 then
          matching_loop a b
            ((if i + k < ahi \<and> j + k < bhi then [(i + k, ahi, j + k, bhi)] else []) @
             (if alo < i \<and> blo < j then [(alo, i, blo, j)] else []) @ queue)
            (blocks @ [(i, j, k)])
        else matching_loop a b queue blocks)"
  by pat_completeness auto
termination
  apply (relation "measure (\<lambda>(a, b, queue, blocks).
          sum_list (map (\<lambda>(alo, ahi, blo, bhi). 2 * (ahi - alo) + 1) queue))")
  apply simp
  subgoal for a b alo ahi blo bhi queue blocks x xa y
    using find_longest_match_window[of alo ahi a b blo bhi]
    by (auto simp: in_window_def split: if_splits)
  subgoal by simp
  done

declare matching_loop.simps [simp del]

text \<open>The loop of \<open>get_matching_blocks\<close> that merges adjacent blocks, over the sorted list.\<close>

fun collapse :: "nat \<Rightarrow> nat \<Rightarrow> nat \<Rightarrow> match list \<Rightarrow> match list \<Rightarrow> match list" where
  "collapse i1 j1 k1 [] non_adjacent =
     (if k1 \<noteq> 0 then non_adjacent @ [(i1, j1, k1)] else non_adjacent)"
| "collapse i1 j1 k1 ((i2, j2, k2) # rest) non_adjacent =
     (if i1 + k1 = i2 \<and> j1 + k1 = j2 then collapse i1 j1 (k1 + k2) rest non_adjacent
      else collapse i2 j2 k2 rest
             (if k1 \<noteq> 0 then non_adjacent @ [(i1, j1, k1)] else non_adjacent))"

definition get_matching_blocks :: "string \<Rightarrow> string \<Rightarrow> match list" where
  "get_matching_blocks a b =
     collapse 0 0 0 (sort (matching_loop a b [(0, length a, 0, length b)] [])) []
       @ [(length a, length b, 0)]"

text \<open>
  The similarity scores. Python computes \<open>2.0 * matches / length\<close> in double precision and
  compares it with the double \<open>0.6\<close>; the model computes the exact rational. For sequences
  whose lengths add up to less than \<open>2^26\<close> two scores, or a score and the cutoff, compare in
  double precision as the exact values do.
\<close>

definition calculate_ratio :: "nat \<Rightarrow> nat \<Rightarrow> rat" where
  "calculate_ratio matches len = (if len \<noteq> 0 then 2 * of_nat matches / of_nat len else 1)"

definition ratio :: "string \<Rightarrow> string \<Rightarrow> rat" where
  "ratio a b =
     calculate_ratio (sum_list (map (\<lambda>(i, j, k). k) (get_matching_blocks a b))) (length a + length b)"

text \<open>\<open>fullbcount.get(elt, 0)\<close>: how often \<open>elt\<close> occurs in \<open>b\<close>.\<close>

definition fullbcount :: "string \<Rightarrow> char \<Rightarrow> int" where
  "fullbcount b elt = int (count_list b elt)"

fun quick_loop :: "(char \<Rightarrow> int) \<Rightarrow> string \<Rightarrow> (char \<rightharpoonup> int) \<Rightarrow> nat \<Rightarrow> nat" where
  "quick_loop fbc [] avail matches = matches"
| "quick_loop fbc (elt # rest) avail matches =
     (let numb = (case avail elt of Some v \<Rightarrow> v | None \<Rightarrow> fbc elt)
      in quick_loop fbc rest (avail(elt \<mapsto> numb - 1)) (if numb > 0 then matches + 1 else matches))"

definition quick_ratio :: "string \<Rightarrow> string \<Rightarrow> rat" where
  "quick_ratio a b = calculate_ratio (quick_loop (fullbcount b) a Map.empty 0) (length a + length b)"

definition real_quick_ratio :: "string \<Rightarrow> string \<Rightarrow> rat" where
  "real_quick_ratio a b = calculate_ratio (min (length a) (length b)) (length a + length b)"

text \<open>The test of \<open>get_close_matches\<close> on one possibility \<open>x\<close>; the word is the second sequence.\<close>

definition clears :: "rat \<Rightarrow> string \<Rightarrow> string \<Rightarrow> bool" where
  "clears cutoff word x =
     (real_quick_ratio x word \<ge> cutoff \<and> quick_ratio x word \<ge> cutoff \<and> ratio x word \<ge> cutoff)"

text \<open>The list \<open>result\<close> of \<open>get_close_matches\<close>: the pairs \<open>(score, x)\<close> in the order of the possibilities.\<close>

definition scored :: "rat \<Rightarrow> string \<Rightarrow> string list \<Rightarrow> (rat \<times> string) list" where
  "scored cutoff word possibilities =
     map (\<lambda>x. (ratio x word, x)) (filter (clears cutoff word) possibilities)"

text \<open>
  Python's \<open>max\<close> over a list that is not empty: the first of the greatest elements.
  Tuples and strings compare lexicographically, as the orders of pairs and lists here do.
\<close>

fun py_max :: "'a::linorder \<Rightarrow> 'a list \<Rightarrow> 'a" where
  "py_max cur [] = cur"
| "py_max cur (x # xs) = py_max (if x > cur then x else cur) xs"

text \<open>\<open>heapq.nlargest(1, result)\<close>.\<close>

definition nlargest1 :: "'a::linorder list \<Rightarrow> 'a list" where
  "nlargest1 xs = (case xs of [] \<Rightarrow> [] | x # rest \<Rightarrow> [py_max x rest])"

text \<open>\<open>get_close_matches(word, possibilities, n=1, cutoff)\<close>.\<close>

definition get_close_matches :: "string \<Rightarrow> string list \<Rightarrow> rat \<Rightarrow> string list" where
  "get_close_matches word possibilities cutoff = map snd (nlargest1 (scored cutoff word possibilities))"

section \<open>Resolving a spoken item name (\<open>scenes/shop_scene.py\<close>)\<close>

text \<open>
  A Python dictionary as an association list in insertion order: assigning to a key that is
  present replaces its value in place, a new key goes to the end.
\<close>

fun dict_set :: "'k \<Rightarrow> 'v \<Rightarrow> ('k \<times> 'v) list \<Rightarrow> ('k \<times> 'v) list" where
  "dict_set k v [] = [(k, v)]"
| "dict_set k v ((k', v') # d) = (if k' = k then (k, v) # d else (k', v') # dict_set k v d)"

text \<open>\<open>{item["name"].lower(): (idx, item) for idx, item in enumerate(self.items)}\<close>\<close>

definition name_lookup :: "item list \<Rightarrow> (string \<times> nat \<times> item) list" where
  "name_lookup items =
     foldl (\<lambda>d (idx, it). dict_set (lower (it_name it)) (idx, it) d) [] (List.enumerate 0 items)"

definition resolve_item_name :: "item list \<Rightarrow> string \<Rightarrow> (nat \<times> item) option" where
  "resolve_item_name items raw_name =
     (let lowered = strip (lower raw_name) in
      if lowered = [] then None
      else
        (case map_of (name_lookup items) lowered of
           Some found \<Rightarrow> Some found
         | None \<Rightarrow>
             (case get_close_matches lowered (map fst (name_lookup items)) (6 / 10) of
                [] \<Rightarrow> None
              | m # _ \<Rightarrow> map_of (name_lookup items) m)))"

text \<open>
  \<open>ShopScene.attempt_voice_purchase\<close>: the purchase callback that the voice channel calls
  on the main loop.
\<close>

definition attempt_voice_purchase ::
  "item list \<Rightarrow> string option \<Rightarrow> game \<Rightarrow> game \<times> (exn + PurchaseOutcome)" where
  "attempt_voice_purchase items raw_item_name g =
     (if raw_item_name = None \<or> the raw_item_name = [] \<or> strip (the raw_item_name) = [] then
        (g, Inr \<lparr> success = False, item_name = None,
                   message = ''I did not catch which item you want.'', price_paid = None \<rparr>)
      else
        (case resolve_item_name items (the raw_item_name) of
           None \<Rightarrow>
             (g, Inr \<lparr> success = False, item_name = None,
                        message = ''I do not have '' @ [CHR 0x27] @ the raw_item_name @ [CHR 0x27] @ '' in stock.'',
                        price_paid = None \<rparr>)
         | Some (idx, it) \<Rightarrow>
             (case attempt_purchase it g of
                (g', Inl e) \<Rightarrow> (g', Inl e)
              | (g', Inr outcome) \<Rightarrow> (g'\<lparr>feedback := message outcome\<rparr>, Inr outcome))))"

text \<open>\<open>ShopScene._build_items\<close>, with the prices of \<open>inventory/items.py\<close>.\<close>

definition build_items :: "item list" where
  "build_items =
     [ \<lparr> it_name = ''Short Sword'', it_type = ''weapon'', it_price = 50, it_sprite = ''short_sword'',
         it_stock_key = None, it_bonus = ''+6 ATK'' \<rparr>,
       \<lparr> it_name = ''Steel Sword'', it_type = ''weapon'', it_price = 120, it_sprite = ''steel_sword'',
         it_stock_key = None, it_bonus = ''+12 ATK'' \<rparr>,
       \<lparr> it_name = ''Wooden Shield'', it_type = ''shield'', it_price = 40, it_sprite = ''wooden_shield'',
         it_stock_key = None, it_bonus = ''+2 DEF'' \<rparr>,
       \<lparr> it_name = ''Iron Shield'', it_type = ''shield'', it_price = 110, it_sprite = ''iron_shield'',
         it_stock_key = None, it_bonus = ''+5 DEF'' \<rparr>,
       \<lparr> it_name = ''Heal Potion'', it_type = ''potion'', it_price = 20, it_sprite = ''heal_potion'',
         it_stock_key = Some ''Heal Potion'', it_bonus = ''Restores 40 HP'' \<rparr>,
       \<lparr> it_name = ''Mana Potion'', it_type = ''potion'', it_price = 20, it_sprite = ''mana_potion'',
         it_stock_key = None, it_bonus = ''Restores 40 MP'' \<rparr> ]"

section \<open>The conversation orchestrator (\<open>voice/assistant.py\<close>)\<close>

datatype intent = Trade | Smalltalk | Unknown

datatype turn = Human string | Assistant string

text \<open>\<open>IntentPrediction\<close>, the structured answer of the classifier (the fields the code reads).\<close>

record prediction =
  p_intent :: intent
  p_item :: "string option"

text \<open>
  \<open>MerchantState\<close>, the state of the graph. A key that is absent is \<open>None\<close>; for
  \<open>messages\<close> and \<open>user_input\<close> the code reads an absent key as the empty value.
\<close>

record MerchantState =
  messages :: "turn list"
  user_input :: string
  st_intent :: "intent option"
  candidate_item :: "string option"
  response_text :: "string option"
  trade_result :: "PurchaseOutcome option"

record AssistantResult =
  ar_intent :: intent
  ar_text :: string
  ar_candidate_item :: "string option"
  ar_trade_result :: "PurchaseOutcome option"

text \<open>
  What the external services answer during one run of the pipeline: the recorder with the
  transcription service, the classifier, the three reply chains and the speech synthesis.
  Each answer is a value or the exception the call raises.
\<close>

record services =
  record_and_transcribe :: "exn + string"
  intent_chain :: "turn list \<Rightarrow> exn + prediction"
  smalltalk_chain :: "turn list \<Rightarrow> exn + string"
  trade_chain :: "turn list \<Rightarrow> string \<Rightarrow> exn + string"
  fallback_chain :: "turn list \<Rightarrow> exn + string"
  tts :: "string \<Rightarrow> exn + string"

definition add_user_message :: "MerchantState \<Rightarrow> MerchantState" where
  "add_user_message st =
     (let ui = strip (user_input st)
      in st\<lparr>messages := (if ui \<noteq> [] then messages st @ [Human ui] else messages st)\<rparr>)"

definition classify_intent :: "services \<Rightarrow> MerchantState \<Rightarrow> exn + MerchantState" where
  "classify_intent svc st =
     (case intent_chain svc (messages st) of
        Inl e \<Rightarrow> Inl e
      | Inr p \<Rightarrow>
          Inr (st\<lparr>st_intent := Some (p_intent p),
                   candidate_item := (if truthy (p_item p) then Some (strip (the (p_item p))) else None)\<rparr>))"

definition route_intent :: "MerchantState \<Rightarrow> intent" where
  "route_intent st =
     (case st_intent st of Some Trade \<Rightarrow> Trade | Some Smalltalk \<Rightarrow> Smalltalk | _ \<Rightarrow> Unknown)"

definition append_response :: "MerchantState \<Rightarrow> string \<Rightarrow> MerchantState" where
  "append_response st response =
     st\<lparr>messages := messages st @ [Assistant response], response_text := Some response\<rparr>"

definition respond_smalltalk :: "services \<Rightarrow> MerchantState \<Rightarrow> exn + MerchantState" where
  "respond_smalltalk svc st =
     (case smalltalk_chain svc (messages st) of
        Inl e \<Rightarrow> Inl e
      | Inr response \<Rightarrow> Inr (append_response st response))"

definition respond_unknown :: "services \<Rightarrow> MerchantState \<Rightarrow> exn + MerchantState" where
  "respond_unknown svc st =
     (case fallback_chain svc (messages st) of
        Inl e \<Rightarrow> Inl e
      | Inr response \<Rightarrow> Inr (append_response st response))"

text \<open>
  \<open>_respond_trade\<close> from the return of \<open>self._purchase_handler(candidate)\<close> on: the
  outcome is stored, then the reply is generated.
\<close>

definition respond_trade_after ::
  "services \<Rightarrow> MerchantState \<Rightarrow> PurchaseOutcome \<Rightarrow> exn + MerchantState" where
  "respond_trade_after svc st outcome =
     (let st1 = st\<lparr>trade_result := Some outcome\<rparr>
      in case trade_chain svc (messages st1) (message outcome) of
           Inl e \<Rightarrow> Inl e
         | Inr response \<Rightarrow> Inr (append_response st1 response))"

text \<open>
  A run of the graph stops in one of three ways before the purchase is made: it returned
  its final state, a node raised, or \<open>respond_trade\<close> is calling the purchase handler
  with the candidate item.
\<close>

datatype progress =
    Returned MerchantState
  | Raised exn
  | CallsPurchase "string option" MerchantState

text \<open>The graph of \<open>_build_graph\<close>: \<open>add_user\<close>, \<open>classify\<close>, then the node \<open>_route_intent\<close> picks.\<close>

definition graph_start :: "services \<Rightarrow> MerchantState \<Rightarrow> progress" where
  "graph_start svc st0 =
     (case classify_intent svc (add_user_message st0) of
        Inl e \<Rightarrow> Raised e
      | Inr st \<Rightarrow>
          (case route_intent st of
             Trade \<Rightarrow> CallsPurchase (candidate_item st) st
           | Smalltalk \<Rightarrow>
               (case respond_smalltalk svc st of Inl e \<Rightarrow> Raised e | Inr st' \<Rightarrow> Returned st')
           | Unknown \<Rightarrow>
               (case respond_unknown svc st of Inl e \<Rightarrow> Raised e | Inr st' \<Rightarrow> Returned st')))"

text \<open>The \<open>AssistantResult\<close> that \<open>process\<close> builds from the final state of the graph.\<close>

definition assistant_result :: "MerchantState \<Rightarrow> AssistantResult" where
  "assistant_result st =
     \<lparr> ar_intent = (case st_intent st of Some i \<Rightarrow> i | None \<Rightarrow> Unknown),
       ar_text = (case response_text st of Some t \<Rightarrow> t | None \<Rightarrow> []),
       ar_candidate_item = candidate_item st,
       ar_trade_result = trade_result st \<rparr>"

section \<open>The background task (\<open>merchant_dialogue.py\<close>, \<open>voice/service.py\<close>)\<close>

record VoiceTaskResult =
  r_transcript :: "string option"
  r_assistant :: "AssistantResult option"
  r_audio_path :: "string option"
  r_error :: "string option"

text \<open>\<open>VoiceEngine.synthesize\<close>\<close>

definition synthesize :: "services \<Rightarrow> string \<Rightarrow> exn + string" where
  "synthesize svc txt =
     (if strip txt = [] then Inl (ValueError ''Cannot synthesize empty text'') else tts svc txt)"

text \<open>The two \<open>except\<close> clauses of \<open>_capture_and_process\<close>.\<close>

definition task_failed :: "exn \<Rightarrow> VoiceTaskResult" where
  "task_failed e =
     (case e of
        RecordingError m \<Rightarrow>
          \<lparr> r_transcript = None, r_assistant = None, r_audio_path = None, r_error = Some m \<rparr>
      | _ \<Rightarrow>
          \<lparr> r_transcript = None, r_assistant = None, r_audio_path = None,
            r_error = Some (''Voice interaction failed: '' @ exn_str e) \<rparr>)"

text \<open>\<open>_capture_and_process\<close> from the return of \<open>self._assistant.process\<close> on.\<close>

definition finish_task :: "services \<Rightarrow> string \<Rightarrow> AssistantResult \<Rightarrow> VoiceTaskResult" where
  "finish_task svc transcript ar =
     (if ar_text ar \<noteq> [] then
        (case synthesize svc (ar_text ar) of
           Inl e \<Rightarrow> task_failed e
         | Inr path \<Rightarrow>
             \<lparr> r_transcript = Some (strip transcript), r_assistant = Some ar,
               r_audio_path = Some path, r_error = None \<rparr>)
      else
        \<lparr> r_transcript = Some (strip transcript), r_assistant = Some ar,
          r_audio_path = None, r_error = None \<rparr>)"

text \<open>
  The task is one synchronous sequence that blocks at most once, inside
  \<open>_purchase_handler\<close>. \<open>pipeline_start\<close> is the sequence up to that call (or to its end,
  when the purchase handler is not called), \<open>pipeline_resume\<close> the sequence from the return
  of the handler on. \<open>checkpoint\<close> is the graph state that the checkpointer holds for the
  session when \<open>process\<close> is called.
\<close>

datatype pending =
    Finished VoiceTaskResult
  | AwaitPurchase "string option" string MerchantState

definition pipeline_start :: "services \<Rightarrow> MerchantState \<Rightarrow> pending" where
  "pipeline_start svc checkpoint =
     (case record_and_transcribe svc of
        Inl e \<Rightarrow> Finished (task_failed e)
      | Inr transcript \<Rightarrow>
          if strip transcript = [] then
            Finished \<lparr> r_transcript = None, r_assistant = None, r_audio_path = None,
                       r_error = Some ''I could not hear you.'' \<rparr>
          else
            (case graph_start svc (checkpoint\<lparr>user_input := transcript\<rparr>) of
               Raised e \<Rightarrow> Finished (task_failed e)
             | Returned st \<Rightarrow> Finished (finish_task svc transcript (assistant_result st))
             | CallsPurchase candidate st \<Rightarrow> AwaitPurchase candidate transcript st))"

definition pipeline_resume ::
  "services \<Rightarrow> string \<Rightarrow> MerchantState \<Rightarrow> PurchaseOutcome \<Rightarrow> VoiceTaskResult" where
  "pipeline_resume svc transcript st outcome =
     (case respond_trade_after svc st outcome of
        Inl e \<Rightarrow> task_failed e
      | Inr st' \<Rightarrow> finish_task svc transcript (assistant_result st'))"

text \<open>
  The request that \<open>_purchase_handler\<close> queues, as the main loop serves it: one pass of the
  body of the loop of \<open>_process_purchase_requests\<close>, which turns an exception of the
  resolver into a failure outcome.
\<close>

definition serve_request :: "item list \<Rightarrow> string option \<Rightarrow> game \<Rightarrow> game \<times> PurchaseOutcome" where
  "serve_request items raw_name g =
     (case attempt_voice_purchase items raw_name g of
        (g', Inr outcome) \<Rightarrow> (g', outcome)
      | (g', Inl exc) \<Rightarrow>
          (g', \<lparr> success = False, item_name = raw_name,
                  message = ''Trade failed: '' @ exn_str exc, price_paid = None \<rparr>))"

text \<open>
  \<open>_capture_and_process\<close> as the worker sees it: the call of the purchase handler returns
  the outcome that the main loop computed on the game state.
\<close>

definition capture_and_process ::
  "item list \<Rightarrow> services \<Rightarrow> MerchantState \<Rightarrow> game \<Rightarrow> game \<times> VoiceTaskResult" where
  "capture_and_process items svc checkpoint g =
     (case pipeline_start svc checkpoint of
        Finished r \<Rightarrow> (g, r)
      | AwaitPurchase candidate transcript st \<Rightarrow>
          (case serve_request items candidate g of
             (g', outcome) \<Rightarrow> (g', pipeline_resume svc transcript st outcome)))"

section \<open>The channel controller (\<open>merchant_dialogue.py\<close>)\<close>

datatype ChannelState = Idle | Recording | Error

text \<open>
  The objects that the main loop and the worker share, by identity: the futures of the
  executor, and the \<open>threading.Event\<close> and result dictionary of every purchase request.
  \<open>event_sets\<close> counts the calls of \<open>Event.set()\<close>; the event is set when the count is
  positive.
\<close>

datatype future_state = FPending | FRunning | FCancelled | FReturned VoiceTaskResult | FRaised exn

record heap =
  futures :: "nat \<Rightarrow> future_state"
  next_future :: nat
  event_sets :: "nat \<Rightarrow> nat"
  containers :: "nat \<rightharpoonup> PurchaseOutcome"
  next_request :: nat

text \<open>An entry of the queue \<open>_purchase_requests\<close>: the item name and the identity of its event and dictionary.\<close>

record request =
  req_item :: "string option"
  req_id :: nat

text \<open>
  The fields of \<open>VoiceChannel\<close>. \<open>ch_engine\<close> and \<open>ch_assistant\<close> say whether the field
  is not \<open>None\<close>; \<open>ch_executor\<close> is the work queue of the single-worker executor.
\<close>

record channel =
  ch_engine :: bool
  ch_assistant :: bool
  ch_executor :: "nat list"
  ch_current_future :: "nat option"
  ch_purchase_requests :: "request list"
  ch_log :: "(string \<times> string) list"
  ch_state :: ChannelState
  ch_status_text :: string
  ch_error_message :: "string option"
  ch_temp_audio :: "string list"

definition MAX_LOG_LINES :: nat where
  "MAX_LOG_LINES = 10"

text \<open>\<open>deque(maxlen=MAX_LOG_LINES).append\<close>: a full deque drops its oldest entry.\<close>

definition deque_append :: "'a \<Rightarrow> 'a list \<Rightarrow> 'a list" where
  "deque_append x d = (if length d \<ge> MAX_LOG_LINES then tl d @ [x] else d @ [x])"

definition append_log :: "string \<Rightarrow> string option \<Rightarrow> channel \<Rightarrow> channel" where
  "append_log speaker msg c =
     (case msg of
        None \<Rightarrow> c
      | Some m \<Rightarrow>
          (let clean = strip (map (\<lambda>ch. if ch = CHR 0x0A then CHR '' '' else ch) m)
           in if clean = [] then c else c\<lparr>ch_log := deque_append (speaker, clean) (ch_log c)\<rparr>))"

text \<open>\<open>Future.done()\<close>\<close>

definition future_done :: "future_state \<Rightarrow> bool" where
  "future_done f = (case f of FPending \<Rightarrow> False | FRunning \<Rightarrow> False | _ \<Rightarrow> True)"

text \<open>\<open>self._current_future and not self._current_future.done()\<close>\<close>

definition outstanding :: "channel \<Rightarrow> heap \<Rightarrow> bool" where
  "outstanding c h =
     (case ch_current_future c of None \<Rightarrow> False | Some f \<Rightarrow> \<not> future_done (futures h f))"

text \<open>\<open>VoiceChannel._start_listening\<close>; \<open>executor.submit\<close> makes a new pending future and queues its work item.\<close>

definition start_listening :: "channel \<times> heap \<Rightarrow> channel \<times> heap" where
  "start_listening ch =
     (case ch of (c, h) \<Rightarrow>
        if outstanding c h then (c, h)
        else if ch_state c = Error then (c, h)
        else if \<not> ch_engine c \<or> \<not> ch_assistant c then (c, h)
        else
          (c\<lparr>ch_state := Recording, ch_status_text := ''Listening...'', ch_error_message := None,
              ch_executor := ch_executor c @ [next_future h],
              ch_current_future := Some (next_future h)\<rparr>,
           h\<lparr>futures := (futures h)(next_future h := FPending), next_future := Suc (next_future h)\<rparr>))"

text \<open>\<open>_play_audio\<close>: \<open>sound_loads\<close> says whether \<open>pygame.mixer.Sound\<close> accepts the file.\<close>

definition play_audio :: "(string \<Rightarrow> bool) \<Rightarrow> string \<Rightarrow> channel \<Rightarrow> channel" where
  "play_audio sound_loads path c =
     (if sound_loads path then c\<lparr>ch_temp_audio := ch_temp_audio c @ [path]\<rparr> else c)"

text \<open>\<open>VoiceChannel._handle_task_result\<close>\<close>

definition handle_task_result :: "(string \<Rightarrow> bool) \<Rightarrow> VoiceTaskResult \<Rightarrow> channel \<Rightarrow> channel" where
  "handle_task_result sound_loads r c =
     (if truthy (r_error r) then
        append_log ''System'' (r_error r)
          (c\<lparr>ch_state := Idle, ch_status_text := ''Press Space to talk'', ch_error_message := r_error r\<rparr>)
      else
        (let c1 = c\<lparr>ch_state := Idle, ch_status_text := ''Press Space to talk''\<rparr>;
             c2 = (if truthy (r_transcript r) then append_log ''You'' (r_transcript r) c1 else c1);
             c3 = (case r_assistant r of
                     None \<Rightarrow> c2
                   | Some ar \<Rightarrow> if ar_text ar \<noteq> [] then append_log ''Mira'' (Some (ar_text ar)) c2 else c2)
         in case r_audio_path r of None \<Rightarrow> c3 | Some path \<Rightarrow> play_audio sound_loads path c3))"

text \<open>
  \<open>VoiceChannel._poll_future\<close>. \<open>Future.result()\<close> returns the value of a task that
  returned, and raises for a task that raised or was cancelled.
\<close>

definition poll_future :: "(string \<Rightarrow> bool) \<Rightarrow> channel \<times> heap \<Rightarrow> channel \<times> heap" where
  "poll_future sound_loads ch =
     (case ch of (c, h) \<Rightarrow>
        (case ch_current_future c of
           None \<Rightarrow> (c, h)
         | Some f \<Rightarrow>
             if \<not> future_done (futures h f) then (c, h)
             else
               (case futures h f of
                  FReturned r \<Rightarrow> ((handle_task_result sound_loads r c)\<lparr>ch_current_future := None\<rparr>, h)
                | FRaised exc \<Rightarrow>
                    (c\<lparr>ch_state := Error, ch_status_text := ''Voice error'',
                        ch_error_message := Some (exn_str exc), ch_current_future := None\<rparr>, h)
                | _ \<Rightarrow>
                    (c\<lparr>ch_state := Error, ch_status_text := ''Voice error'',
                        ch_error_message := Some (exn_str CancelledError), ch_current_future := None\<rparr>, h))))"

text \<open>
  \<open>VoiceChannel._process_purchase_requests\<close>: the loop takes the requests in the order
  they were queued, until the queue is empty; each one is served, its outcome stored in its
  dictionary and its event set.
\<close>

fun drain :: "item list \<Rightarrow> request list \<Rightarrow> game \<times> heap \<Rightarrow> game \<times> heap" where
  "drain items [] gh = gh"
| "drain items (rq # queue) gh =
     (case gh of (g, h) \<Rightarrow>
        (case serve_request items (req_item rq) g of
           (g', outcome) \<Rightarrow>
             drain items queue
               (g', h\<lparr>containers := (containers h)(req_id rq \<mapsto> outcome),
                       event_sets := (event_sets h)(req_id rq := Suc (event_sets h (req_id rq)))\<rparr>)))"

definition process_purchase_requests ::
  "item list \<Rightarrow> channel \<times> game \<times> heap \<Rightarrow> channel \<times> game \<times> heap" where
  "process_purchase_requests items w =
     (case w of (c, g, h) \<Rightarrow>
        (case drain items (ch_purchase_requests c) (g, h) of
           (g', h') \<Rightarrow> (c\<lparr>ch_purchase_requests := []\<rparr>, g', h')))"

text \<open>
  \<open>VoiceChannel._reset_conversation\<close>, on the fields of the channel. The history that
  \<open>self._assistant.reset_conversation\<close> clears is held by the checkpointer of the graph
  library and is not part of this state.
\<close>

definition reset_conversation :: "channel \<Rightarrow> channel" where
  "reset_conversation c =
     (if \<not> ch_assistant c then c
      else
        (append_log ''Mira'' (Some ''Let's start over. How can I help?'') (c\<lparr>ch_log := []\<rparr>))
          \<lparr>ch_state := Idle, ch_status_text := ''Press Space to talk'', ch_error_message := None\<rparr>)"

datatype key = K_SPACE | K_r | K_other

text \<open>\<open>VoiceChannel.handle_input\<close>, on the key-down events of one frame.\<close>

fun handle_keys :: "key list \<Rightarrow> channel \<times> heap \<Rightarrow> channel \<times> heap" where
  "handle_keys [] ch = ch"
| "handle_keys (K_SPACE # ks) ch = handle_keys ks (start_listening ch)"
| "handle_keys (K_r # ks) ch = handle_keys ks (reset_conversation (fst ch), snd ch)"
| "handle_keys (K_other # ks) ch = handle_keys ks ch"

definition handle_input :: "key list \<Rightarrow> channel \<times> heap \<Rightarrow> channel \<times> heap" where
  "handle_input events ch =
     (if \<not> ch_assistant (fst ch) \<or> \<not> ch_engine (fst ch) \<or> ch_state (fst ch) = Error then ch
      else handle_keys events ch)"

text \<open>\<open>Future.cancel()\<close>: only a future that is still pending is cancelled.\<close>

definition cancel :: "future_state \<Rightarrow> future_state" where
  "cancel f = (case f of FPending \<Rightarrow> FCancelled | _ \<Rightarrow> f)"

text \<open>
  \<open>VoiceChannel.close\<close> from the return of \<open>self._assistant.reset_conversation\<close> on: the
  current future is cancelled if it is not done, \<open>shutdown(wait=False, cancel_futures=True)\<close>
  cancels the work items that wait in the queue of the executor, and the list of temporary
  audio files is cleared. The files themselves and the voice engine are outside this state.
\<close>

definition close :: "channel \<times> heap \<Rightarrow> channel \<times> heap" where
  "close ch =
     (case ch of (c, h) \<Rightarrow>
        (let h1 = (case ch_current_future c of
                     None \<Rightarrow> h
                   | Some f \<Rightarrow>
                       if \<not> future_done (futures h f)
                       then h\<lparr>futures := (futures h)(f := cancel (futures h f))\<rparr> else h);
             h2 = h1\<lparr>futures := (\<lambda>f. if f \<in> set (ch_executor c) then cancel (futures h1 f)
                                     else futures h1 f)\<rparr>
         in (c\<lparr>ch_executor := [], ch_temp_audio := []\<rparr>, h2)))"

text \<open>
  \<open>VoiceChannel.__init__\<close> with \<open>_initialise_services\<close>: \<open>engine_ok\<close> and
  \<open>assistant_ok\<close> say whether the voice engine and, after it, the assistant could be
  built. The text of the exception that \<open>_error_message\<close> keeps on a failure comes from
  the constructor that failed.
\<close>

definition new_channel :: "bool \<Rightarrow> bool \<Rightarrow> string option \<Rightarrow> string \<Rightarrow> channel" where
  "new_channel engine_ok assistant_ok visitor failure_text =
     (let c0 = \<lparr> ch_engine = engine_ok, ch_assistant = False, ch_executor = [], ch_current_future = None,
                 ch_purchase_requests = [], ch_log = [], ch_state = Idle,
                 ch_status_text = ''Press Space to talk'', ch_error_message = None,
                 ch_temp_audio = [] \<rparr>
      in if engine_ok \<and> assistant_ok then
           (let clean = strip (if truthy visitor then the visitor else ''traveler'');
                display_name = (if clean = [] then ''traveler'' else clean)
            in append_log ''Mira''
                 (Some (''Welcome, '' @ display_name @ ''! Tell me what you need or feel free to chat.''))
                 (c0\<lparr>ch_assistant := True\<rparr>))
         else c0\<lparr>ch_state := Error, ch_error_message := Some failure_text,
                 ch_status_text := ''Voice setup failed''\<rparr>)"

definition new_heap :: heap where
  "new_heap = \<lparr> futures = (\<lambda>_. FPending), next_future = 0, event_sets = (\<lambda>_. 0),
                containers = Map.empty, next_request = 0 \<rparr>"

section \<open>The main loop and the worker together\<close>

text \<open>
  The executor has one worker thread, which takes the work items in the order of their
  submission and runs one task at a time. The worker is idle, or runs a task that has not
  called the purchase handler, or is blocked in \<open>event.wait()\<close> inside
  \<open>_purchase_handler\<close>; there it keeps what the rest of the task needs.
\<close>

datatype worker =
    WIdle
  | WRunning nat
  | WBlocked nat nat services string MerchantState

record system =
  sys_chan :: channel
  sys_game :: game
  sys_heap :: heap
  sys_worker :: worker
  sys_closed :: bool

text \<open>
  The actions of the two threads. While the scene holds the channel, the main loop handles
  the input of a frame, drains the purchase requests and polls the future (\<open>render\<close> does
  the last two in this order); it closes the channel when the scene is left, and whatever
  else it does to the game state (a purchase with the buttons, a fight) is an action
  \<open>MainLoop\<close>. The worker picks the next work item up, runs the task to its end or to the
  call of the purchase handler, and resumes when its event is set. The methods of the
  channel touch the shared objects only through the queue, the event, the dictionary and
  the future, and the worker acts on none of them while such a method runs, so each call is
  one action.
\<close>

datatype action =
    Input "key list"
  | Drain
  | Poll "string \<Rightarrow> bool"
  | Close bool
  | MainLoop "game \<Rightarrow> game"
  | Pickup
  | Run services MerchantState
  | Resume

fun exec :: "item list \<Rightarrow> action \<Rightarrow> system \<Rightarrow> system option" where
  "exec items (Input events) s =
     (if sys_closed s then None
      else case handle_input events (sys_chan s, sys_heap s) of
             (c, h) \<Rightarrow> Some (s\<lparr>sys_chan := c, sys_heap := h\<rparr>))"
| "exec items Drain s =
     (if sys_closed s then None
      else case process_purchase_requests items (sys_chan s, sys_game s, sys_heap s) of
             (c, g, h) \<Rightarrow> Some (s\<lparr>sys_chan := c, sys_game := g, sys_heap := h\<rparr>))"
| "exec items (Poll sound_loads) s =
     (if sys_closed s then None
      else case poll_future sound_loads (sys_chan s, sys_heap s) of
             (c, h) \<Rightarrow> Some (s\<lparr>sys_chan := c, sys_heap := h\<rparr>))"
| "exec items (Close reset_returns) s =
     (if sys_closed s then None
      else if reset_returns then
        (case close (sys_chan s, sys_heap s) of
           (c, h) \<Rightarrow> Some (s\<lparr>sys_chan := c, sys_heap := h, sys_closed := True\<rparr>))
      else Some (s\<lparr>sys_closed := True\<rparr>))"
| "exec items (MainLoop change) s = Some (s\<lparr>sys_game := change (sys_game s)\<rparr>)"
| "exec items Pickup s =
     (case (sys_worker s, ch_executor (sys_chan s)) of
        (WIdle, f # rest) \<Rightarrow>
          Some (s\<lparr>sys_chan := (sys_chan s)\<lparr>ch_executor := rest\<rparr>,
                   sys_heap := (sys_heap s)\<lparr>futures := (futures (sys_heap s))(f := FRunning)\<rparr>,
                   sys_worker := WRunning f\<rparr>)
      | _ \<Rightarrow> None)"
| "exec items (Run svc checkpoint) s =
     (case sys_worker s of
        WRunning f \<Rightarrow>
          (case pipeline_start svc checkpoint of
             Finished r \<Rightarrow>
               Some (s\<lparr>sys_heap := (sys_heap s)\<lparr>futures := (futures (sys_heap s))(f := FReturned r)\<rparr>,
                        sys_worker := WIdle\<rparr>)
           | AwaitPurchase candidate transcript st \<Rightarrow>
               (let rid = next_request (sys_heap s)
                in Some (s\<lparr>sys_chan := (sys_chan s)\<lparr>ch_purchase_requests :=
                                ch_purchase_requests (sys_chan s) @ [\<lparr>req_item = candidate, req_id = rid\<rparr>]\<rparr>,
                            sys_heap := (sys_heap s)\<lparr>next_request := Suc rid\<rparr>,
                            sys_worker := WBlocked f rid svc transcript st\<rparr>)))
      | _ \<Rightarrow> None)"
| "exec items Resume s =
     (case sys_worker s of
        WBlocked f rid svc transcript st \<Rightarrow>
          (if event_sets (sys_heap s) rid > 0 then
             (case containers (sys_heap s) rid of
                Some outcome \<Rightarrow>
                  Some (s\<lparr>sys_heap := (sys_heap s)\<lparr>futures := (futures (sys_heap s))
                                          (f := FReturned (pipeline_resume svc transcript st outcome))\<rparr>,
                           sys_worker := WIdle\<rparr>)
              | None \<Rightarrow> None)
           else None)
      | _ \<Rightarrow> None)"

text \<open>
  The system when the shop scene has built its voice channel. \<open>Close reset_returns\<close> is
  the call of \<open>close\<close> by the scene, which then drops the channel; when the reset of the
  conversation raises, the rest of \<open>close\<close> is skipped and the scene ignores the exception.
\<close>

definition initial :: "bool \<Rightarrow> bool \<Rightarrow> string option \<Rightarrow> string \<Rightarrow> game \<Rightarrow> system" where
  "initial engine_ok assistant_ok visitor failure_text g =
     \<lparr> sys_chan = new_channel engine_ok assistant_ok visitor failure_text, sys_game = g,
       sys_heap = new_heap, sys_worker = WIdle, sys_closed = False \<rparr>"

inductive reachable :: "item list \<Rightarrow> system \<Rightarrow> bool" for items :: "item list" where
  reachable_initial: "reachable items (initial engine_ok assistant_ok visitor failure_text g)"
| reachable_exec: "reachable items s \<Longrightarrow> exec items a s = Some s' \<Longrightarrow> reachable items s'"

section \<open>Notions used in the statements\<close>

text \<open>
  How many units of an item the player holds, what it means that the inventory knows an
  item (its name is a key of the dictionary of its type, with a count that is not
  negative), and the two states a call of the resolver may leave: the purchase made, or
  gold, holdings and stock untouched.
\<close>

definition holdings :: "inventory \<Rightarrow> item \<Rightarrow> int" where
  "holdings i it =
     (if it_type it = ''weapon'' then get0 (weapons i) (it_name it)
      else if it_type it = ''shield'' then get0 (shields i) (it_name it)
      else get0 (potions i) (it_name it))"

definition known :: "inventory \<Rightarrow> item \<Rightarrow> bool" where
  "known i it =
     (if it_type it = ''weapon'' then (case weapons i (it_name it) of Some c \<Rightarrow> c \<ge> 0 | None \<Rightarrow> False)
      else if it_type it = ''shield'' then (case shields i (it_name it) of Some c \<Rightarrow> c \<ge> 0 | None \<Rightarrow> False)
      else potions i (it_name it) \<noteq> None)"

definition inventory_ok :: "inventory \<Rightarrow> bool" where
  "inventory_ok i = list_all (known i) build_items"

definition purchased :: "item \<Rightarrow> game \<Rightarrow> game \<Rightarrow> bool" where
  "purchased it g g' =
     (gold (the_player g') = gold (the_player g) - it_price it
      \<and> holdings (inv (the_player g')) it = holdings (inv (the_player g)) it + 1
      \<and> merchant_stock g' =
          (if truthy (it_stock_key it)
           then (merchant_stock g)(the (it_stock_key it) \<mapsto> get0 (merchant_stock g) (the (it_stock_key it)) - 1)
           else merchant_stock g))"

definition untouched :: "game \<Rightarrow> game \<Rightarrow> bool" where
  "untouched g g' =
     (gold (the_player g') = gold (the_player g) \<and> inv (the_player g') = inv (the_player g)
      \<and> merchant_stock g' = merchant_stock g)"

definition scenario :: "int \<Rightarrow> game" where
  "scenario gold0 =
     \<lparr> the_player = \<lparr> player_name = ''Hero'', gold = gold0, inv = InventoryManager \<rparr>,
       merchant_stock = [''Heal Potion'' \<mapsto> 3], feedback = [] \<rparr>"

definition resolver_calls :: "item list \<Rightarrow> string option list \<Rightarrow> game \<Rightarrow> game" where
  "resolver_calls items raws g = foldl (\<lambda>g raw. fst (attempt_voice_purchase items raw g)) g raws"

text \<open>A sequence of actions of the two threads, from a state; \<open>None\<close> when one of them is not enabled.\<close>

fun run :: "item list \<Rightarrow> action list \<Rightarrow> system \<Rightarrow> system option" where
  "run items [] s = Some s"
| "run items (a # as) s = (case exec items a s of None \<Rightarrow> None | Some s' \<Rightarrow> run items as s')"

text \<open>
  What holds of the purchase queue in every state the system reaches: nothing is queued
  unless the worker is blocked in \<open>_purchase_handler\<close>, and then at most the one request
  of that call, whose event is not set yet; events of requests not made yet are not set.
\<close>

definition bridge_inv :: "system \<Rightarrow> bool" where
  "bridge_inv s =
     ((\<forall>r. next_request (sys_heap s) \<le> r \<longrightarrow> event_sets (sys_heap s) r = 0)
      \<and> (case sys_worker s of
            WBlocked f rid svc transcript st \<Rightarrow>
              rid < next_request (sys_heap s)
              \<and> (ch_purchase_requests (sys_chan s) = []
                 \<or> ((\<exists>candidate. ch_purchase_requests (sys_chan s) = [\<lparr>req_item = candidate, req_id = rid\<rparr>])
                    \<and> event_sets (sys_heap s) rid = 0))
          | _ \<Rightarrow> ch_purchase_requests (sys_chan s) = []))"

text \<open>
  What holds of the futures in every state the system reaches: no task raises (every
  exception of the pipeline is caught inside the task), and a future is cancelled only by
  closing the channel.
\<close>

definition futures_inv :: "system \<Rightarrow> bool" where
  "futures_inv s =
     (\<forall>f. (\<forall>e. futures (sys_heap s) f \<noteq> FRaised e)
          \<and> (futures (sys_heap s) f = FCancelled \<longrightarrow> sys_closed s))"

text \<open>
  States and services of the examples: a mixer that loads every sound file; the future
  with a given number in a state of the system; the channel of a visitor called Hero right
  after a first press of the space bar; a checkpoint without history; a recorder without a
  microphone; a visitor who asks for a Heal Potion while the reply generation is down; a
  visitor who says hello while the speech synthesis is down; a player whose inventory has
  lost its dictionaries.
\<close>

definition mixer_ok :: "string \<Rightarrow> bool" where
  "mixer_ok path = True"

definition future_of :: "nat \<Rightarrow> system \<Rightarrow> future_state" where
  "future_of f s = futures (sys_heap s) f"

definition hero_recording :: "channel \<times> heap" where
  "hero_recording = start_listening (new_channel True True (Some ''Hero'') [], new_heap)"

definition no_microphone :: services where
  "no_microphone =
     \<lparr> record_and_transcribe = Inl (RecordingError ''No input device''),
       intent_chain = (\<lambda>_. Inl (ServiceError ''unused'')),
       smalltalk_chain = (\<lambda>_. Inl (ServiceError ''unused'')),
       trade_chain = (\<lambda>_ _. Inl (ServiceError ''unused'')),
       fallback_chain = (\<lambda>_. Inl (ServiceError ''unused'')),
       tts = (\<lambda>_. Inl (ServiceError ''unused'')) \<rparr>"

definition empty_state :: MerchantState where
  "empty_state = \<lparr> messages = [], user_input = [], st_intent = None, candidate_item = None,
                    response_text = None, trade_result = None \<rparr>"

definition wants_heal_potion :: services where
  "wants_heal_potion =
     \<lparr> record_and_transcribe = Inr ''One heal potion, please'',
       intent_chain = (\<lambda>_. Inr \<lparr> p_intent = Trade, p_item = Some ''Heal Potion'' \<rparr>),
       smalltalk_chain = (\<lambda>_. Inr ''Good day to you!''),
       trade_chain = (\<lambda>_ _. Inl (ServiceError ''Connection error.'')),
       fallback_chain = (\<lambda>_. Inr ''What would you like?''),
       tts = (\<lambda>_. Inr ''tts_1.mp3'') \<rparr>"

definition says_hello :: services where
  "says_hello =
     \<lparr> record_and_transcribe = Inr ''Hello Mira'',
       intent_chain = (\<lambda>_. Inr \<lparr> p_intent = Smalltalk, p_item = None \<rparr>),
       smalltalk_chain = (\<lambda>_. Inr ''Good day to you!''),
       trade_chain = (\<lambda>_ _. Inr ''Here you go.''),
       fallback_chain = (\<lambda>_. Inr ''What would you like?''),
       tts = (\<lambda>_. Inl (ServiceError ''TTS unavailable'')) \<rparr>"

definition empty_handed :: game where
  "empty_handed =
     \<lparr> the_player = \<lparr> player_name = ''Hero'', gold = 100,
                      inv = \<lparr> weapons = Map.empty, shields = Map.empty, potions = Map.empty,
                              equipped_weapon = None, equipped_shield = None \<rparr> \<rparr>,
       merchant_stock = [''Heal Potion'' \<mapsto> 3], feedback = [] \<rparr>"

section \<open>Properties of the purchase resolver\<close>

lemma grant_known:
  assumes "known i it"
  shows "\<exists>i'. grant it i = (i', None) \<and> holdings i' it = holdings i it + 1"
proof (cases "it_type it = ''weapon''")
  case True
  with assms obtain c where "weapons i (it_name it) = Some c" "c \<ge> 0"
    by (auto simp: known_def split: option.splits)
  with True show ?thesis
    by (auto simp: grant_def holdings_def add_weapon_def equip_weapon_def get0_def)
next
  case nw: False
  show ?thesis
  proof (cases "it_type it = ''shield''")
    case True
    with nw assms obtain c where "shields i (it_name it) = Some c" "c \<ge> 0"
      by (auto simp: known_def split: option.splits)
    with nw True show ?thesis
      by (auto simp: grant_def holdings_def add_shield_def equip_shield_def get0_def)
  next
    case False
    with nw assms obtain c where "potions i (it_name it) = Some c"
      by (auto simp: known_def)
    with nw False show ?thesis
      by (auto simp: grant_def holdings_def add_potion_def get0_def)
  qed
qed

lemma attempt_purchase_cases:
  assumes "known (inv (the_player g)) it"
  shows "\<exists>g' outcome. attempt_purchase it g = (g', Inr outcome) \<and> item_name outcome = Some (it_name it) \<and>
           (if success outcome then price_paid outcome = Some (it_price it) \<and> purchased it g g'
            else g' = g)"
proof -
  obtain i' where gr: "grant it (inv (the_player g)) = (i', None)"
    and h: "holdings i' it = holdings (inv (the_player g)) it + 1"
    using grant_known[OF assms] by blast
  show ?thesis
    using gr h
    by (auto simp: attempt_purchase_def spend_gold_def purchased_def Let_def get0_def truthy_def
          split: option.splits)
qed

lemma isspace_lower_char: "isspace (lower_char c) = isspace c"
proof -
  have "of_char (char_of (of_char c + 32 :: nat)) = (of_char c + 32 :: nat)"
    if "(of_char c :: nat) \<le> 90"
    using that by (simp add: of_char_of)
  then show ?thesis
    by (auto simp: isspace_def lower_char_def Let_def)
qed

lemma dropWhile_isspace_lower: "dropWhile isspace (lower s) = lower (dropWhile isspace s)"
  by (induction s) (simp_all add: lower_def isspace_lower_char)

lemma strip_lower: "strip (lower s) = lower (strip s)"
proof -
  have "rev (lower s) = lower (rev s)" for s by (simp add: lower_def rev_map)
  then show ?thesis
    by (simp add: strip_def dropWhile_isspace_lower)
qed

lemma strip_lower_Nil: "strip (lower s) = [] \<longleftrightarrow> strip s = []"
  by (simp add: strip_lower) (simp add: lower_def)

lemma set_dict_set: "set (dict_set k v d) \<subseteq> insert (k, v) (set d)"
  by (induction d) (auto split: if_splits)

lemma name_lookup_from:
  "(k, idx, it) \<in> set (foldl (\<lambda>d (idx, it). dict_set (lower (it_name it)) (idx, it) d) d0 xs) \<Longrightarrow>
   (k, idx, it) \<in> set d0 \<or> ((idx, it) \<in> set xs \<and> k = lower (it_name it))"
proof (induction xs arbitrary: d0)
  case Nil
  then show ?case by simp
next
  case (Cons x xs)
  obtain j jt where x: "x = (j, jt)" by (cases x)
  from Cons.prems have
    "(k, idx, it) \<in> set (foldl (\<lambda>d (idx, it). dict_set (lower (it_name it)) (idx, it) d)
        (dict_set (lower (it_name jt)) (j, jt) d0) xs)"
    by (simp add: x)
  from Cons.IH[OF this] set_dict_set[of "lower (it_name jt)" "(j, jt)" d0] show ?case
    by (auto simp: x)
qed

lemma name_lookup_entry:
  assumes "map_of (name_lookup items) k = Some (idx, it)"
  shows "(idx, it) \<in> set (List.enumerate 0 items) \<and> k = lower (it_name it)"
proof -
  from assms have "(k, idx, it) \<in> set (name_lookup items)" by (rule map_of_SomeD)
  then show ?thesis
    unfolding name_lookup_def using name_lookup_from[of k idx it "[]"] by auto
qed

lemma py_max_mem: "py_max cur xs \<in> insert cur (set xs)"
  by (induction xs arbitrary: cur) auto

lemma get_close_matches_mem:
  assumes "get_close_matches word possibilities cutoff = m # ms"
  shows "m \<in> set possibilities \<and> clears cutoff word m \<and> ms = []"
proof (cases "scored cutoff word possibilities")
  case Nil
  with assms show ?thesis by (simp add: get_close_matches_def nlargest1_def)
next
  case (Cons p ps)
  with assms have m: "m = snd (py_max p ps)" and "ms = []"
    by (simp_all add: get_close_matches_def nlargest1_def)
  have "py_max p ps \<in> set (scored cutoff word possibilities)"
    using py_max_mem[of p ps] Cons by simp
  then have "m \<in> set (filter (clears cutoff word) possibilities)"
    unfolding m scored_def by auto
  with \<open>ms = []\<close> show ?thesis by simp
qed

lemma resolve_item_name_Some:
  assumes "resolve_item_name items raw = Some (idx, it)"
  shows "(idx, it) \<in> set (List.enumerate 0 items) \<and> strip raw \<noteq> []"
proof -
  from assms have ne: "strip (lower raw) \<noteq> []"
    by (auto simp: resolve_item_name_def Let_def split: if_splits)
  from assms obtain k where "map_of (name_lookup items) k = Some (idx, it)"
    by (auto simp: resolve_item_name_def Let_def split: if_splits option.splits list.splits)
  from name_lookup_entry[OF this] ne show ?thesis
    by (simp add: strip_lower_Nil)
qed

lemma strip_Nil: "strip [] = []"
  by (simp add: strip_def)

lemma attempt_voice_purchase_cases:
  assumes "\<forall>it \<in> set items. known (inv (the_player g)) it"
  shows "\<exists>g' outcome. attempt_voice_purchase items raw g = (g', Inr outcome) \<and>
           (if success outcome
            then (\<exists>it \<in> set items. item_name outcome = Some (it_name it)
                    \<and> price_paid outcome = Some (it_price it) \<and> purchased it g g')
            else untouched g g')"
proof (cases "raw = None \<or> the raw = [] \<or> strip (the raw) = []")
  case True
  then show ?thesis
    by (auto simp: attempt_voice_purchase_def untouched_def)
next
  case False
  show ?thesis
  proof (cases "resolve_item_name items (the raw)")
    case None
    with False show ?thesis
      by (auto simp: attempt_voice_purchase_def untouched_def)
  next
    case (Some found)
    obtain idx it where found: "found = (idx, it)" by (cases found)
    from Some found have "(idx, it) \<in> set (List.enumerate 0 items)"
      using resolve_item_name_Some by blast
    then have mem: "it \<in> set items"
      by (auto simp: in_set_enumerate_eq)
    with assms have "known (inv (the_player g)) it" by blast
    from attempt_purchase_cases[OF this] obtain g1 outcome where
      ap: "attempt_purchase it g = (g1, Inr outcome)" and nm: "item_name outcome = Some (it_name it)"
      and c: "if success outcome then price_paid outcome = Some (it_price it) \<and> purchased it g g1 else g1 = g"
      by blast
    have "attempt_voice_purchase items raw g = (g1\<lparr>feedback := message outcome\<rparr>, Inr outcome)"
      using False Some found ap by (auto simp: attempt_voice_purchase_def)
    moreover have "if success outcome
            then (\<exists>it \<in> set items. item_name outcome = Some (it_name it)
                    \<and> price_paid outcome = Some (it_price it) \<and> purchased it g (g1\<lparr>feedback := message outcome\<rparr>))
            else untouched g (g1\<lparr>feedback := message outcome\<rparr>)"
      using c nm mem by (auto simp: purchased_def untouched_def)
    ultimately show ?thesis by blast
  qed
qed


lemma grant_preserves_known:
  assumes "known i it" "known i it'"
  shows "known (fst (grant it i)) it'"
proof (cases "it_type it = ''weapon''")
  case True
  with assms(1) obtain c where "weapons i (it_name it) = Some c" "c \<ge> 0"
    by (auto simp: known_def split: option.splits)
  with True assms(2) show ?thesis
    by (auto simp: grant_def known_def add_weapon_def equip_weapon_def get0_def split: option.splits)
next
  case nw: False
  show ?thesis
  proof (cases "it_type it = ''shield''")
    case True
    with nw assms(1) obtain c where "shields i (it_name it) = Some c" "c \<ge> 0"
      by (auto simp: known_def split: option.splits)
    with nw True assms(2) show ?thesis
      by (auto simp: grant_def known_def add_shield_def equip_shield_def get0_def split: option.splits)
  next
    case False
    with nw assms(1) obtain c where "potions i (it_name it) = Some c"
      by (auto simp: known_def)
    with nw False assms(2) show ?thesis
      by (auto simp: grant_def known_def add_potion_def split: option.splits)
  qed
qed

lemma attempt_purchase_inv:
  "inv (the_player (fst (attempt_purchase it g))) = inv (the_player g)
   \<or> inv (the_player (fst (attempt_purchase it g))) = fst (grant it (inv (the_player g)))"
  by (auto simp: attempt_purchase_def spend_gold_def Let_def split: prod.splits option.splits)

lemma attempt_purchase_preserves_known:
  assumes "known (inv (the_player g)) it" "known (inv (the_player g)) it'"
  shows "known (inv (the_player (fst (attempt_purchase it g)))) it'"
  using attempt_purchase_inv[of it g] grant_preserves_known[OF assms] assms(2) by auto

lemma attempt_voice_purchase_inv:
  "inv (the_player (fst (attempt_voice_purchase items raw g))) = inv (the_player g)
   \<or> (\<exists>idx it. resolve_item_name items (the raw) = Some (idx, it)
        \<and> inv (the_player (fst (attempt_voice_purchase items raw g)))
            = inv (the_player (fst (attempt_purchase it g))))"
  by (auto simp: attempt_voice_purchase_def split: option.splits prod.splits sum.splits)

lemma attempt_voice_purchase_preserves_known:
  assumes "\<forall>it \<in> set items. known (inv (the_player g)) it" "known (inv (the_player g)) it'"
  shows "known (inv (the_player (fst (attempt_voice_purchase items raw g)))) it'"
proof -
  from attempt_voice_purchase_inv[of items raw g] show ?thesis
  proof
    assume "inv (the_player (fst (attempt_voice_purchase items raw g))) = inv (the_player g)"
    with assms(2) show ?thesis by simp
  next
    assume "\<exists>idx it. resolve_item_name items (the raw) = Some (idx, it)
        \<and> inv (the_player (fst (attempt_voice_purchase items raw g)))
            = inv (the_player (fst (attempt_purchase it g)))"
    then obtain idx it where r: "resolve_item_name items (the raw) = Some (idx, it)"
      and e: "inv (the_player (fst (attempt_voice_purchase items raw g)))
            = inv (the_player (fst (attempt_purchase it g)))" by blast
    from resolve_item_name_Some[OF r] have "it \<in> set items"
      by (auto simp: in_set_enumerate_eq)
    with assms(1) have "known (inv (the_player g)) it" by blast
    from attempt_purchase_preserves_known[OF this assms(2)] e show ?thesis by simp
  qed
qed

lemma inventory_ok_preserved:
  assumes "inventory_ok (inv (the_player g))"
  shows "inventory_ok (inv (the_player (fst (attempt_voice_purchase build_items raw g))))"
  using assms attempt_voice_purchase_preserves_known[of build_items g _ raw]
  unfolding inventory_ok_def list_all_iff by blast

text \<open>
  Claim C1. Purchase atomicity. On the catalog of the shop, in a state where the inventory
  knows every catalog item (the constructor of the inventory establishes this and every call
  of the resolver keeps it), every call of the resolver returns an outcome, and after it
  either the outcome is a success for a catalog item, the gold has gone down by exactly the
  price of that item, the holdings of that item have gone up by exactly one and the stock
  ledger, when the item has one, has gone down by one; or the outcome is a failure and gold,
  inventory and stock ledger are what they were. In the example of the specification (Heal
  Potion at 20 gold, stock 3, 25 gold), resolving \<open>heal potion\<close> succeeds with price paid
  20, stock 2 and gold 5.
\<close>

theorem purchase_atomic:
  assumes "inventory_ok (inv (the_player g))"
  shows "(\<exists>g' outcome.
            attempt_voice_purchase build_items raw g = (g', Inr outcome)
            \<and> inventory_ok (inv (the_player g'))
            \<and> (if success outcome
               then (\<exists>it \<in> set build_items. item_name outcome = Some (it_name it)
                       \<and> price_paid outcome = Some (it_price it) \<and> purchased it g g')
               else untouched g g'))
         \<and> (case attempt_voice_purchase build_items (Some ''heal potion'') (scenario 25) of
              (g', r) \<Rightarrow>
                r = Inr \<lparr> success = True, item_name = Some ''Heal Potion'',
                          message = ''Bought Heal Potion for 20g.'', price_paid = Some 20 \<rparr>
                \<and> gold (the_player g') = 5 \<and> merchant_stock g' ''Heal Potion'' = Some 2
                \<and> potions (inv (the_player g')) ''Heal Potion'' = Some 1)"
proof
  have "\<forall>it \<in> set build_items. known (inv (the_player g)) it"
    using assms by (simp add: inventory_ok_def list_all_iff)
  from attempt_voice_purchase_cases[OF this, of raw] obtain g' outcome where
    r: "attempt_voice_purchase build_items raw g = (g', Inr outcome)"
    and c: "if success outcome
            then (\<exists>it \<in> set build_items. item_name outcome = Some (it_name it)
                    \<and> price_paid outcome = Some (it_price it) \<and> purchased it g g')
            else untouched g g'"
    by blast
  have "inventory_ok (inv (the_player g'))"
    using inventory_ok_preserved[OF assms, of raw] r by simp
  with r c show "\<exists>g' outcome.
            attempt_voice_purchase build_items raw g = (g', Inr outcome)
            \<and> inventory_ok (inv (the_player g'))
            \<and> (if success outcome
               then (\<exists>it \<in> set build_items. item_name outcome = Some (it_name it)
                       \<and> price_paid outcome = Some (it_price it) \<and> purchased it g g')
               else untouched g g')"
    by blast
next
  show "case attempt_voice_purchase build_items (Some ''heal potion'') (scenario 25) of
              (g', r) \<Rightarrow>
                r = Inr \<lparr> success = True, item_name = Some ''Heal Potion'',
                          message = ''Bought Heal Potion for 20g.'', price_paid = Some 20 \<rparr>
                \<and> gold (the_player g') = 5 \<and> merchant_stock g' ''Heal Potion'' = Some 2
                \<and> potions (inv (the_player g')) ''Heal Potion'' = Some 1"
    by code_simp
qed

text \<open>
  The theorem at the second example of the specification: with 5 gold the purchase of the
  Heal Potion fails and nothing is touched.
\<close>

theorem purchase_atomic_witness:
  "inventory_ok (inv (the_player (scenario 5)))
   \<and> snd (attempt_voice_purchase build_items (Some ''Heal Potion'') (scenario 5))
       = Inr \<lparr> success = False, item_name = Some ''Heal Potion'',
                 message = ''Not enough gold for 20g.'', price_paid = None \<rparr>
   \<and> untouched (scenario 5) (fst (attempt_voice_purchase build_items (Some ''Heal Potion'') (scenario 5)))"
proof -
  have ok: "inventory_ok (inv (the_player (scenario 5)))"
    by code_simp
  have ev: "snd (attempt_voice_purchase build_items (Some ''Heal Potion'') (scenario 5))
       = Inr \<lparr> success = False, item_name = Some ''Heal Potion'',
                 message = ''Not enough gold for 20g.'', price_paid = None \<rparr>"
    by code_simp
  from purchase_atomic[OF ok, of "Some ''Heal Potion''"] obtain g' outcome where
    r: "attempt_voice_purchase build_items (Some ''Heal Potion'') (scenario 5) = (g', Inr outcome)"
    and c: "if success outcome
            then (\<exists>it \<in> set build_items. item_name outcome = Some (it_name it)
                    \<and> price_paid outcome = Some (it_price it) \<and> purchased it (scenario 5) g')
            else untouched (scenario 5) g'"
    by blast
  from r ev have "\<not> success outcome" by simp
  with c r ok ev show ?thesis by simp
qed

lemma zero_stock_attempt_purchase:
  "merchant_stock g k = Some 0 \<Longrightarrow> merchant_stock (fst (attempt_purchase it' g)) k = Some 0"
  by (auto simp: attempt_purchase_def spend_gold_def Let_def get0_def truthy_def
        split: prod.splits option.splits)

lemma zero_stock_attempt_voice_purchase:
  "merchant_stock g k = Some 0 \<Longrightarrow> merchant_stock (fst (attempt_voice_purchase items raw g)) k = Some 0"
  using zero_stock_attempt_purchase[of g k]
  by (auto simp: attempt_voice_purchase_def split: option.splits prod.splits sum.splits)
     (metis fst_conv)+

lemma zero_stock_resolver_calls:
  "merchant_stock g k = Some 0 \<Longrightarrow> merchant_stock (resolver_calls items raws g) k = Some 0"
  unfolding resolver_calls_def
  by (induction raws arbitrary: g) (simp_all add: zero_stock_attempt_voice_purchase)

lemma out_of_stock_attempt:
  assumes "it_stock_key it = Some k" "k \<noteq> []" "merchant_stock g k = Some 0"
  shows "attempt_purchase it g =
           (g, Inr \<lparr> success = False, item_name = Some (it_name it),
                      message = it_name it @ '' is out of stock!'', price_paid = None \<rparr>)"
  using assms by (simp add: attempt_purchase_def truthy_def get0_def)

text \<open>
  Claim C6. Stock exhaustion. When the ledger of the stock key of an item stands at 0, then
  after any further calls of the resolver it still stands at 0, an attempt to buy the item
  returns the failure outcome \<open>... is out of stock!\<close> and leaves the whole state as it
  was, and so does every voice purchase whose name resolves to the item (which only records
  the message as feedback); the gold is never touched.
\<close>

theorem out_of_stock_fails:
  assumes "it_stock_key it = Some k" and "k \<noteq> []" and "merchant_stock g k = Some 0"
    and "g' = resolver_calls items raws g"
    and "failure = \<lparr> success = False, item_name = Some (it_name it),
                      message = it_name it @ '' is out of stock!'', price_paid = None \<rparr>"
  shows "merchant_stock g' k = Some 0
         \<and> attempt_purchase it g' = (g', Inr failure)
         \<and> (\<forall>raw idx. resolve_item_name items raw = Some (idx, it) \<longrightarrow>
               attempt_voice_purchase items (Some raw) g' = (g'\<lparr>feedback := message failure\<rparr>, Inr failure))"
proof -
  have z: "merchant_stock g' k = Some 0"
    unfolding assms(4) using assms(3) by (rule zero_stock_resolver_calls)
  have a: "attempt_purchase it g' = (g', Inr failure)"
    unfolding assms(5) using assms(1,2) z by (rule out_of_stock_attempt)
  have "attempt_voice_purchase items (Some raw) g' = (g'\<lparr>feedback := message failure\<rparr>, Inr failure)"
    if "resolve_item_name items raw = Some (idx, it)" for raw idx
  proof -
    from resolve_item_name_Some[OF that] have "strip raw \<noteq> []" by simp
    then have "raw \<noteq> []" using strip_Nil by auto
    with \<open>strip raw \<noteq> []\<close> that a show ?thesis
      by (simp add: attempt_voice_purchase_def)
  qed
  with z a show ?thesis by blast
qed

text \<open>
  The theorem on the catalog of the shop: three Heal Potions bought with 100 gold empty the
  ledger; after one more purchase (a Mana Potion) a request for \<open>Heal Potions\<close> is
  refused and the gold stays at 20.
\<close>

theorem out_of_stock_fails_witness:
  "it_stock_key (build_items ! 4) = Some ''Heal Potion'' \<and> ''Heal Potion'' \<noteq> []
   \<and> merchant_stock (resolver_calls build_items [Some ''heal potion'', Some ''Heal Potion'', Some ''HEAL POTION''] (scenario 100)) ''Heal Potion'' = Some 0
   \<and> resolve_item_name build_items ''Heal Potions'' = Some (4, build_items ! 4)
   \<and> snd (attempt_voice_purchase build_items (Some ''Heal Potions'')
        (resolver_calls build_items [Some ''Mana potion'']
          (resolver_calls build_items [Some ''heal potion'', Some ''Heal Potion'', Some ''HEAL POTION''] (scenario 100))))
       = Inr \<lparr> success = False, item_name = Some ''Heal Potion'',
                 message = ''Heal Potion is out of stock!'', price_paid = None \<rparr>
   \<and> gold (the_player (fst (attempt_voice_purchase build_items (Some ''Heal Potions'')
        (resolver_calls build_items [Some ''Mana potion'']
          (resolver_calls build_items [Some ''heal potion'', Some ''Heal Potion'', Some ''HEAL POTION''] (scenario 100))))))
       = 20"
proof -
  define g0 where "g0 = resolver_calls build_items [Some ''heal potion'', Some ''Heal Potion'', Some ''HEAL POTION''] (scenario 100)"
  define g1 where "g1 = resolver_calls build_items [Some ''Mana potion''] g0"
  have k: "it_stock_key (build_items ! 4) = Some ''Heal Potion''" by code_simp
  have z: "merchant_stock g0 ''Heal Potion'' = Some 0" unfolding g0_def by code_simp
  have r: "resolve_item_name build_items ''Heal Potions'' = Some (4, build_items ! 4)" by code_simp
  have nm: "it_name (build_items ! 4) = ''Heal Potion''" by code_simp
  have gd: "gold (the_player g1) = 20" unfolding g1_def g0_def by code_simp
  have ne: "''Heal Potion'' \<noteq> []" by simp
  from out_of_stock_fails[OF k ne z g1_def refl] r
  have "attempt_voice_purchase build_items (Some ''Heal Potions'') g1
        = (g1\<lparr>feedback := it_name (build_items ! 4) @ '' is out of stock!''\<rparr>,
           Inr \<lparr> success = False, item_name = Some (it_name (build_items ! 4)),
                    message = it_name (build_items ! 4) @ '' is out of stock!'', price_paid = None \<rparr>)"
    by (simp del: One_nat_def)
  with k z r gd show ?thesis
    unfolding g1_def[symmetric] g0_def[symmetric] by (simp add: nm g1_def[symmetric])
qed


section \<open>Fuzzy resolution\<close>

lemma py_max_Max: "py_max cur xs = Max (insert cur (set xs))"
proof (induction xs arbitrary: cur)
  case Nil
  then show ?case by simp
next
  case (Cons x xs)
  have m: "(if x > cur then x else cur) = max cur x"
    by (auto simp: max_def)
  have "Max (insert (max cur x) (set xs)) = Max (insert cur (insert x (set xs)))"
  proof (cases "set xs = {}")
    case True
    then show ?thesis by simp
  next
    case False
    then show ?thesis by (simp add: max.assoc)
  qed
  with Cons.IH[of "max cur x"] m show ?case by simp
qed

lemma get_close_matches_best:
  assumes "x \<in> set possibilities" and "clears cutoff word x"
    and "\<forall>y \<in> set possibilities. clears cutoff word y \<longrightarrow> (ratio y word, y) \<le> (ratio x word, x)"
  shows "get_close_matches word possibilities cutoff = [x]"
proof -
  let ?sc = "scored cutoff word possibilities"
  have mem: "(ratio x word, x) \<in> set ?sc"
    using assms(1,2) by (auto simp: scored_def)
  have ub: "e \<le> (ratio x word, x)" if "e \<in> set ?sc" for e
    using that assms(3) by (auto simp: scored_def)
  from mem obtain p ps where sc: "?sc = p # ps" by (cases ?sc) auto
  have "py_max p ps = Max (set ?sc)" by (simp add: py_max_Max sc)
  also have "\<dots> = (ratio x word, x)"
    using mem ub by (intro Max_eqI) auto
  finally show ?thesis
    by (simp add: get_close_matches_def nlargest1_def sc)
qed

lemma get_close_matches_none:
  assumes "\<forall>y \<in> set possibilities. \<not> clears cutoff word y"
  shows "get_close_matches word possibilities cutoff = []"
proof -
  have "filter (clears cutoff word) possibilities = []"
    using assms by (simp add: filter_empty_conv)
  then show ?thesis by (simp add: get_close_matches_def nlargest1_def scored_def)
qed

lemma name_lookup_key:
  assumes "x \<in> set (map fst (name_lookup items))"
  shows "\<exists>idx it. map_of (name_lookup items) x = Some (idx, it)
           \<and> (idx, it) \<in> set (List.enumerate 0 items) \<and> lower (it_name it) = x"
proof -
  from assms obtain v where v: "map_of (name_lookup items) x = Some v"
    by (metis map_of_eq_None_iff not_Some_eq set_map)
  obtain idx it where "v = (idx, it)" by (cases v)
  with v name_lookup_entry[of items x idx it] show ?thesis by auto
qed

text \<open>
  Claim C3, as amended. Fuzzy resolution of a name that is not blank and is no catalog name
  (without regard to case). If exactly one catalog name clears the cutoff of 0.6, the
  resolver returns that item. If no catalog name clears the cutoff, the name is unresolved
  and the voice purchase returns the failure outcome \<open>I do not have '...' in stock.\<close>
  with the state as it was. If several catalog names clear the cutoff, the name is not
  unresolved: the resolver returns the item whose pair of score and lower-cased name is the
  greatest, so of equally close names the one that is greatest in the order of strings.
\<close>

theorem fuzzy_resolution:
  assumes "strip (lower raw) \<noteq> []"
    and "map_of (name_lookup items) (strip (lower raw)) = None"
  shows "(x \<in> set (map fst (name_lookup items)) \<and> clears (6 / 10) (strip (lower raw)) x
            \<and> (\<forall>y \<in> set (map fst (name_lookup items)). clears (6 / 10) (strip (lower raw)) y \<longrightarrow> y = x)
          \<longrightarrow> (\<exists>idx it. resolve_item_name items raw = Some (idx, it)
                 \<and> (idx, it) \<in> set (List.enumerate 0 items) \<and> lower (it_name it) = x))
       \<and> ((\<forall>y \<in> set (map fst (name_lookup items)). \<not> clears (6 / 10) (strip (lower raw)) y)
          \<longrightarrow> resolve_item_name items raw = None
              \<and> attempt_voice_purchase items (Some raw) g =
                  (g, Inr \<lparr> success = False, item_name = None,
                             message = ''I do not have '' @ [CHR 0x27] @ raw @ [CHR 0x27] @ '' in stock.'',
                             price_paid = None \<rparr>))
       \<and> (x \<in> set (map fst (name_lookup items)) \<and> clears (6 / 10) (strip (lower raw)) x
            \<and> (\<forall>y \<in> set (map fst (name_lookup items)). clears (6 / 10) (strip (lower raw)) y
                  \<longrightarrow> (ratio y (strip (lower raw)), y) \<le> (ratio x (strip (lower raw)), x))
          \<longrightarrow> (\<exists>idx it. resolve_item_name items raw = Some (idx, it)
                 \<and> (idx, it) \<in> set (List.enumerate 0 items) \<and> lower (it_name it) = x))"
proof -
  let ?w = "strip (lower raw)" and ?keys = "map fst (name_lookup items)"
  have best: "\<exists>idx it. resolve_item_name items raw = Some (idx, it)
                 \<and> (idx, it) \<in> set (List.enumerate 0 items) \<and> lower (it_name it) = x"
    if x: "x \<in> set ?keys" and c: "clears (6 / 10) ?w x"
      and m: "\<forall>y \<in> set ?keys. clears (6 / 10) ?w y \<longrightarrow> (ratio y ?w, y) \<le> (ratio x ?w, x)"
  proof -
    have "get_close_matches ?w ?keys (6 / 10) = [x]"
      using x c m by (rule get_close_matches_best)
    then have "resolve_item_name items raw = map_of (name_lookup items) x"
      using assms by (simp add: resolve_item_name_def)
    with name_lookup_key[OF x] show ?thesis by auto
  qed
  have unique: "\<exists>idx it. resolve_item_name items raw = Some (idx, it)
                 \<and> (idx, it) \<in> set (List.enumerate 0 items) \<and> lower (it_name it) = x"
    if x: "x \<in> set ?keys" and c: "clears (6 / 10) ?w x"
      and u: "\<forall>y \<in> set ?keys. clears (6 / 10) ?w y \<longrightarrow> y = x"
  proof -
    from u have "\<forall>y \<in> set ?keys. clears (6 / 10) ?w y \<longrightarrow> (ratio y ?w, y) \<le> (ratio x ?w, x)"
      by auto
    with x c show ?thesis by (rule best)
  qed
  have none: "resolve_item_name items raw = None
              \<and> attempt_voice_purchase items (Some raw) g =
                  (g, Inr \<lparr> success = False, item_name = None,
                             message = ''I do not have '' @ [CHR 0x27] @ raw @ [CHR 0x27] @ '' in stock.'',
                             price_paid = None \<rparr>)"
    if n: "\<forall>y \<in> set ?keys. \<not> clears (6 / 10) ?w y"
  proof -
    have "get_close_matches ?w ?keys (6 / 10) = []"
      using n by (rule get_close_matches_none)
    then have r: "resolve_item_name items raw = None"
      using assms by (simp add: resolve_item_name_def)
    from assms(1) have "strip raw \<noteq> []" by (simp add: strip_lower_Nil)
    moreover from this have "raw \<noteq> []" using strip_Nil by auto
    ultimately show ?thesis using r by (simp add: attempt_voice_purchase_def)
  qed
  from best unique none show ?thesis by blast
qed

text \<open>
  The theorem on the catalog of the shop: \<open>Heall Poshun\<close> is within the cutoff of
  \<open>heal potion\<close> only and resolves to the Heal Potion; no catalog name is within the
  cutoff of \<open>lute\<close>, which is refused with the state untouched.
\<close>

theorem fuzzy_resolution_witness:
  "strip (lower ''Heall Poshun'') \<noteq> []
   \<and> map_of (name_lookup build_items) (strip (lower ''Heall Poshun'')) = None
   \<and> ''heal potion'' \<in> set (map fst (name_lookup build_items))
   \<and> clears (6 / 10) (strip (lower ''Heall Poshun'')) ''heal potion''
   \<and> list_all (\<lambda>y. clears (6 / 10) (strip (lower ''Heall Poshun'')) y = (y = ''heal potion''))
        (map fst (name_lookup build_items))
   \<and> (\<exists>idx it. resolve_item_name build_items ''Heall Poshun'' = Some (idx, it)
         \<and> (idx, it) \<in> set (List.enumerate 0 build_items) \<and> lower (it_name it) = ''heal potion'')
   \<and> strip (lower ''lute'') \<noteq> []
   \<and> map_of (name_lookup build_items) (strip (lower ''lute'')) = None
   \<and> list_all (\<lambda>y. \<not> clears (6 / 10) (strip (lower ''lute'')) y) (map fst (name_lookup build_items))
   \<and> attempt_voice_purchase build_items (Some ''lute'') (scenario 25) =
        (scenario 25, Inr \<lparr> success = False, item_name = None,
                              message = ''I do not have '' @ [CHR 0x27] @ ''lute'' @ [CHR 0x27] @ '' in stock.'',
                              price_paid = None \<rparr>)"
proof -
  have a1: "strip (lower ''Heall Poshun'') \<noteq> []" by code_simp
  have a2: "map_of (name_lookup build_items) (strip (lower ''Heall Poshun'')) = None" by code_simp
  have a3: "''heal potion'' \<in> set (map fst (name_lookup build_items))" by code_simp
  have a4: "clears (6 / 10) (strip (lower ''Heall Poshun'')) ''heal potion''" by code_simp
  have a5: "list_all (\<lambda>y. clears (6 / 10) (strip (lower ''Heall Poshun'')) y = (y = ''heal potion''))
        (map fst (name_lookup build_items))" by code_simp
  have b1: "strip (lower ''lute'') \<noteq> []" by code_simp
  have b2: "map_of (name_lookup build_items) (strip (lower ''lute'')) = None" by code_simp
  have b3: "list_all (\<lambda>y. \<not> clears (6 / 10) (strip (lower ''lute'')) y) (map fst (name_lookup build_items))"
    by code_simp
  from a5 have a5': "\<forall>y \<in> set (map fst (name_lookup build_items)).
      clears (6 / 10) (strip (lower ''Heall Poshun'')) y \<longrightarrow> y = ''heal potion''"
    unfolding list_all_iff by blast
  from b3 have b3': "\<forall>y \<in> set (map fst (name_lookup build_items)). \<not> clears (6 / 10) (strip (lower ''lute'')) y"
    unfolding list_all_iff by blast
  from fuzzy_resolution[OF a1 a2, of "''heal potion''"] a3 a4 a5'
  have r1: "\<exists>idx it. resolve_item_name build_items ''Heall Poshun'' = Some (idx, it)
         \<and> (idx, it) \<in> set (List.enumerate 0 build_items) \<and> lower (it_name it) = ''heal potion''"
    by blast
  from fuzzy_resolution[OF b1 b2, of "''x''" "scenario 25"] b3'
  have r2: "attempt_voice_purchase build_items (Some ''lute'') (scenario 25) =
        (scenario 25, Inr \<lparr> success = False, item_name = None,
                              message = ''I do not have '' @ [CHR 0x27] @ ''lute'' @ [CHR 0x27] @ '' in stock.'',
                              price_paid = None \<rparr>)"
    by blast
  from a1 a2 a3 a4 a5 r1 b1 b2 b3 r2 show ?thesis by blast
qed

text \<open>
  Claim C3 as stated fails: \<open>sword\<close> is equally close (score 5/8) to \<open>short sword\<close> and
  \<open>steel sword\<close>, both clear the cutoff, and the resolver returns the Steel Sword. The voice
  purchase then fails for lack of gold with 25 gold, and buys the Steel Sword with 150.
\<close>

theorem equally_close_counterexample:
  "strip (lower ''Sword'') = ''sword''
   \<and> map fst (name_lookup build_items)
       = [''short sword'', ''steel sword'', ''wooden shield'', ''iron shield'', ''heal potion'', ''mana potion'']
   \<and> ratio ''short sword'' ''sword'' = 5 / 8
   \<and> ratio ''steel sword'' ''sword'' = 5 / 8
   \<and> clears (6 / 10) ''sword'' ''short sword''
   \<and> clears (6 / 10) ''sword'' ''steel sword''
   \<and> resolve_item_name build_items ''Sword'' = Some (1, build_items ! 1)
   \<and> it_name (build_items ! 1) = ''Steel Sword''
   \<and> snd (attempt_voice_purchase build_items (Some ''Sword'') (scenario 25))
       = Inr \<lparr> success = False, item_name = Some ''Steel Sword'',
                 message = ''Not enough gold for 120g.'', price_paid = None \<rparr>
   \<and> snd (attempt_voice_purchase build_items (Some ''Sword'') (scenario 150))
       = Inr \<lparr> success = True, item_name = Some ''Steel Sword'',
                 message = ''Bought Steel Sword for 120g.'', price_paid = Some 120 \<rparr>
   \<and> gold (the_player (fst (attempt_voice_purchase build_items (Some ''Sword'') (scenario 150)))) = 30"
  by code_simp

section \<open>Properties of the channel controller\<close>

lemma append_log_fields:
  "ch_state (append_log sp m c) = ch_state c"
  "ch_status_text (append_log sp m c) = ch_status_text c"
  "ch_error_message (append_log sp m c) = ch_error_message c"
  "ch_current_future (append_log sp m c) = ch_current_future c"
  "ch_purchase_requests (append_log sp m c) = ch_purchase_requests c"
  "ch_executor (append_log sp m c) = ch_executor c"
  "ch_engine (append_log sp m c) = ch_engine c"
  "ch_assistant (append_log sp m c) = ch_assistant c"
  by (simp_all add: append_log_def Let_def split: option.splits)

lemma play_audio_fields:
  "ch_state (play_audio sl p c) = ch_state c"
  "ch_status_text (play_audio sl p c) = ch_status_text c"
  "ch_error_message (play_audio sl p c) = ch_error_message c"
  "ch_current_future (play_audio sl p c) = ch_current_future c"
  "ch_purchase_requests (play_audio sl p c) = ch_purchase_requests c"
  "ch_executor (play_audio sl p c) = ch_executor c"
  "ch_engine (play_audio sl p c) = ch_engine c"
  "ch_assistant (play_audio sl p c) = ch_assistant c"
  "ch_log (play_audio sl p c) = ch_log c"
  by (simp_all add: play_audio_def)

lemma handle_task_result_fields:
  "ch_state (handle_task_result sl r c) = Idle"
  "ch_status_text (handle_task_result sl r c) = ''Press Space to talk''"
  "ch_error_message (handle_task_result sl r c) = (if truthy (r_error r) then r_error r else ch_error_message c)"
  "ch_current_future (handle_task_result sl r c) = ch_current_future c"
  "ch_purchase_requests (handle_task_result sl r c) = ch_purchase_requests c"
  "ch_executor (handle_task_result sl r c) = ch_executor c"
  "ch_engine (handle_task_result sl r c) = ch_engine c"
  "ch_assistant (handle_task_result sl r c) = ch_assistant c"
  by (simp_all add: handle_task_result_def Let_def append_log_fields play_audio_fields split: option.splits)

text \<open>
  Claim C7. Single flight. While the future of a background task is outstanding (the channel
  holds a future that is not done), a further start of an interaction changes nothing:
  channel state, status text, log, the current future, the work queue of the executor and
  the futures themselves are what they were, however often the space bar is pressed.
\<close>

theorem second_start_is_noop:
  assumes "outstanding c h"
  shows "start_listening (c, h) = (c, h) \<and> handle_input (replicate n K_SPACE) (c, h) = (c, h)"
proof -
  have s: "start_listening (c, h) = (c, h)"
    using assms by (simp add: start_listening_def)
  have "handle_keys (replicate n K_SPACE) (c, h) = (c, h)"
    by (induction n) (simp_all add: s)
  with s show ?thesis by (simp add: handle_input_def)
qed

text \<open>
  The theorem on the channel of Hero: the first start submits task 0 and leaves it
  outstanding, the second start returns the state of the first.
\<close>

theorem second_start_is_noop_witness:
  "outstanding (fst hero_recording) (snd hero_recording)
   \<and> hero_recording \<noteq> (new_channel True True (Some ''Hero'') [], new_heap)
   \<and> start_listening hero_recording = hero_recording
   \<and> ch_executor (fst (start_listening hero_recording)) = [0]
   \<and> ch_current_future (fst (start_listening hero_recording)) = Some 0"
proof -
  obtain c h where ch: "hero_recording = (c, h)"
    by (cases hero_recording)
  have f: "ch_current_future c = Some 0 \<and> futures h 0 = FPending \<and> ch_executor c = [0]
           \<and> ch_state c = Recording"
    using ch unfolding hero_recording_def
    by (auto simp: start_listening_def new_channel_def new_heap_def outstanding_def
          append_log_fields truthy_def Let_def split: if_splits)
  then have o: "outstanding c h"
    by (simp add: outstanding_def future_done_def)
  have ne: "(c, h) \<noteq> (new_channel True True (Some ''Hero'') [], new_heap)"
    using f by (auto simp: new_channel_def append_log_fields Let_def)
  from second_start_is_noop[OF o, of 1] o ne f show ?thesis
    by (simp add: ch)
qed

lemma drain_effect:
  "distinct (map req_id q) \<Longrightarrow> drain items q (g, h) = (g', h') \<Longrightarrow>
     (\<forall>rq \<in> set q. event_sets h' (req_id rq) = Suc (event_sets h (req_id rq))
                   \<and> (\<exists>outcome. containers h' (req_id rq) = Some outcome))
     \<and> (\<forall>i. i \<notin> req_id ` set q \<longrightarrow> event_sets h' i = event_sets h i \<and> containers h' i = containers h i)
     \<and> futures h' = futures h \<and> next_future h' = next_future h \<and> next_request h' = next_request h"
proof (induction q arbitrary: g h)
  case Nil
  then show ?case by simp
next
  case (Cons rq q)
  obtain g1 outcome where sr: "serve_request items (req_item rq) g = (g1, outcome)"
    by (cases "serve_request items (req_item rq) g")
  define h1 where "h1 = h\<lparr>containers := (containers h)(req_id rq \<mapsto> outcome),
                       event_sets := (event_sets h)(req_id rq := Suc (event_sets h (req_id rq)))\<rparr>"
  from Cons.prems(2) have d: "drain items q (g1, h1) = (g', h')"
    by (simp add: sr h1_def)
  from Cons.prems(1) have dq: "distinct (map req_id q)" and nin: "req_id rq \<notin> req_id ` set q"
    by auto
  note ih = Cons.IH[OF dq d]
  have a: "event_sets h' (req_id rq) = Suc (event_sets h (req_id rq))"
    "containers h' (req_id rq) = Some outcome"
    using ih nin by (auto simp: h1_def)
  have b: "event_sets h' (req_id r) = Suc (event_sets h (req_id r)) \<and> (\<exists>outcome. containers h' (req_id r) = Some outcome)"
    if "r \<in> set q" for r
  proof -
    from that nin have "req_id r \<noteq> req_id rq" by (metis imageI)
    with ih that show ?thesis by (auto simp: h1_def)
  qed
  have c: "event_sets h' i = event_sets h i \<and> containers h' i = containers h i"
    if "i \<notin> req_id ` set (rq # q)" for i
    using ih that by (auto simp: h1_def)
  have e: "futures h' = futures h \<and> next_future h' = next_future h \<and> next_request h' = next_request h"
    using ih by (simp add: h1_def)
  from a b c e show ?case by auto
qed

text \<open>
  Claim C10. One call of the drain empties the queue; for every request that was queued
  (their events being distinct objects) it sets the event exactly once more and stores an
  outcome in its dictionary. For a queue of one request the outcome is the one that serving
  the request gives: the outcome of the resolver, or, when the resolver raises, the failure
  outcome \<open>Trade failed: ...\<close> with the text of the exception. While the channel is
  open, a worker blocked on the request of the queue can resume right after the drain, and
  its task returns.
\<close>

theorem drain_serves_requests:
  assumes "distinct (map req_id (ch_purchase_requests c))"
  shows "(\<exists>g' h'. process_purchase_requests items (c, g, h) = (c\<lparr>ch_purchase_requests := []\<rparr>, g', h')
            \<and> (\<forall>rq \<in> set (ch_purchase_requests c).
                   event_sets h' (req_id rq) = Suc (event_sets h (req_id rq))
                   \<and> (\<exists>outcome. containers h' (req_id rq) = Some outcome)))
       \<and> (ch_purchase_requests c = [rq] \<longrightarrow>
            process_purchase_requests items (c, g, h) =
              (c\<lparr>ch_purchase_requests := []\<rparr>,
               fst (serve_request items (req_item rq) g),
               h\<lparr>containers := (containers h)(req_id rq \<mapsto> snd (serve_request items (req_item rq) g)),
                 event_sets := (event_sets h)(req_id rq := Suc (event_sets h (req_id rq)))\<rparr>))
       \<and> (attempt_voice_purchase items raw g = (g1, Inl exc) \<longrightarrow>
            serve_request items raw g =
              (g1, \<lparr> success = False, item_name = raw,
                      message = ''Trade failed: '' @ exn_str exc, price_paid = None \<rparr>))
       \<and> (attempt_voice_purchase items raw g = (g1, Inr outcome) \<longrightarrow>
            serve_request items raw g = (g1, outcome))
       \<and> (\<not> sys_closed s \<and> sys_worker s = WBlocked f rid svc transcript st
            \<and> ch_purchase_requests (sys_chan s) = [\<lparr>req_item = candidate, req_id = rid\<rparr>] \<longrightarrow>
            (\<exists>s' s''. exec items Drain s = Some s' \<and> exec items Resume s' = Some s''
               \<and> ch_purchase_requests (sys_chan s'') = []
               \<and> futures (sys_heap s'') f =
                   FReturned (pipeline_resume svc transcript st (snd (serve_request items candidate (sys_game s))))))"
proof -
  obtain g' h' where d: "drain items (ch_purchase_requests c) (g, h) = (g', h')"
    by (cases "drain items (ch_purchase_requests c) (g, h)")
  have p: "process_purchase_requests items (c, g, h) = (c\<lparr>ch_purchase_requests := []\<rparr>, g', h')"
    by (simp add: process_purchase_requests_def d)
  have 1: "\<exists>g' h'. process_purchase_requests items (c, g, h) = (c\<lparr>ch_purchase_requests := []\<rparr>, g', h')
            \<and> (\<forall>rq \<in> set (ch_purchase_requests c).
                   event_sets h' (req_id rq) = Suc (event_sets h (req_id rq))
                   \<and> (\<exists>outcome. containers h' (req_id rq) = Some outcome))"
    using p drain_effect[OF assms d] by blast
  have 2: "process_purchase_requests items (c, g, h) =
              (c\<lparr>ch_purchase_requests := []\<rparr>,
               fst (serve_request items (req_item rq) g),
               h\<lparr>containers := (containers h)(req_id rq \<mapsto> snd (serve_request items (req_item rq) g)),
                 event_sets := (event_sets h)(req_id rq := Suc (event_sets h (req_id rq)))\<rparr>)"
    if "ch_purchase_requests c = [rq]"
    using that by (simp add: process_purchase_requests_def split: prod.splits)
  have 3: "serve_request items raw g =
              (g1, \<lparr> success = False, item_name = raw,
                      message = ''Trade failed: '' @ exn_str exc, price_paid = None \<rparr>)"
    if "attempt_voice_purchase items raw g = (g1, Inl exc)"
    using that by (simp add: serve_request_def)
  have 4: "serve_request items raw g = (g1, outcome)"
    if "attempt_voice_purchase items raw g = (g1, Inr outcome)"
    using that by (simp add: serve_request_def)
  have 5: "\<exists>s' s''. exec items Drain s = Some s' \<and> exec items Resume s' = Some s''
               \<and> ch_purchase_requests (sys_chan s'') = []
               \<and> futures (sys_heap s'') f =
                   FReturned (pipeline_resume svc transcript st (snd (serve_request items candidate (sys_game s))))"
    if "\<not> sys_closed s" and "sys_worker s = WBlocked f rid svc transcript st"
      and "ch_purchase_requests (sys_chan s) = [\<lparr>req_item = candidate, req_id = rid\<rparr>]"
    using that by (auto simp: process_purchase_requests_def split: prod.splits)
  from 1 2 3 4 5 show ?thesis by blast
qed

text \<open>
  The theorem at a request for a Short Sword when the inventory does not know the sword:
  the resolver raises a \<open>KeyError\<close>, the drain stores the failure outcome and sets the
  event once.
\<close>

theorem drain_serves_requests_witness:
  "distinct (map req_id [\<lparr>req_item = Some ''Short Sword'', req_id = 0\<rparr>])
   \<and> snd (attempt_voice_purchase build_items (Some ''Short Sword'') empty_handed)
       = Inl (KeyError ''Unknown weapon: Short Sword'')
   \<and> (case process_purchase_requests build_items
             ((new_channel True True None [])\<lparr>ch_purchase_requests := [\<lparr>req_item = Some ''Short Sword'', req_id = 0\<rparr>]\<rparr>,
              empty_handed, new_heap) of
        (c', g', h') \<Rightarrow>
          ch_purchase_requests c' = [] \<and> event_sets h' 0 = 1
          \<and> containers h' 0 = Some \<lparr> success = False, item_name = Some ''Short Sword'',
                 message = ''Trade failed: '' @ [CHR 0x27] @ ''Unknown weapon: Short Sword'' @ [CHR 0x27],
                 price_paid = None \<rparr>)"
proof -
  let ?rq = "\<lparr>req_item = Some ''Short Sword'', req_id = 0\<rparr>"
  let ?c = "(new_channel True True None [])\<lparr>ch_purchase_requests := [?rq]\<rparr>"
  have d: "distinct (map req_id (ch_purchase_requests ?c))" by simp
  have q: "ch_purchase_requests ?c = [?rq]" by simp
  have "snd (attempt_voice_purchase build_items (Some ''Short Sword'') empty_handed)
       = Inl (KeyError ''Unknown weapon: Short Sword'')"
    by code_simp
  then obtain g1 where av: "attempt_voice_purchase build_items (Some ''Short Sword'') empty_handed
       = (g1, Inl (KeyError ''Unknown weapon: Short Sword''))"
    by (cases "attempt_voice_purchase build_items (Some ''Short Sword'') empty_handed") auto
  have es: "exn_str (KeyError ''Unknown weapon: Short Sword'') = [CHR 0x27] @ ''Unknown weapon: Short Sword'' @ [CHR 0x27]"
    by code_simp
  from drain_serves_requests[OF d, of build_items empty_handed new_heap ?rq "Some ''Short Sword''" g1
      "KeyError ''Unknown weapon: Short Sword''"] q av es
  show ?thesis
    by (simp add: new_heap_def)
qed

section \<open>Properties of the background task\<close>

text \<open>
  Claim C4, as amended. When the utterance is classified as a trade, the purchase has been
  served by the main loop and the reply generation then raises, the game state keeps what
  the purchase did, and the result of the task carries the error text only: transcript,
  assistant result (and with it the outcome of the purchase) and audio are absent.
\<close>

theorem trade_outcome_not_reported:
  assumes "pipeline_start svc checkpoint = AwaitPurchase candidate transcript st"
    and "serve_request items candidate g = (g', outcome)"
    and "trade_chain svc (messages st) (message outcome) = Inl e"
  shows "capture_and_process items svc checkpoint g = (g', task_failed e)
         \<and> r_assistant (task_failed e) = None
         \<and> r_transcript (task_failed e) = None
         \<and> r_audio_path (task_failed e) = None
         \<and> r_error (task_failed e) =
             Some (case e of RecordingError m \<Rightarrow> m | _ \<Rightarrow> ''Voice interaction failed: '' @ exn_str e)"
proof -
  have "respond_trade_after svc st outcome = Inl e"
    using assms(3) by (simp add: respond_trade_after_def)
  then have "pipeline_resume svc transcript st outcome = task_failed e"
    by (simp add: pipeline_resume_def)
  then have "capture_and_process items svc checkpoint g = (g', task_failed e)"
    using assms(1,2) by (simp add: capture_and_process_def)
  then show ?thesis
    by (cases e) (simp_all add: task_failed_def)
qed

text \<open>The theorem at the request for a Heal Potion with 25 gold, the reply generation being down.\<close>

theorem trade_outcome_not_reported_witness:
  "(case pipeline_start wants_heal_potion empty_state of
      AwaitPurchase candidate transcript st \<Rightarrow>
        candidate = Some ''Heal Potion'' \<and> transcript = ''One heal potion, please''
        \<and> trade_chain wants_heal_potion (messages st)
             (message (snd (serve_request build_items candidate (scenario 25))))
           = Inl (ServiceError ''Connection error.'')
    | Finished r \<Rightarrow> False)
   \<and> snd (capture_and_process build_items wants_heal_potion empty_state (scenario 25))
       = task_failed (ServiceError ''Connection error.'')
   \<and> fst (capture_and_process build_items wants_heal_potion empty_state (scenario 25))
       = fst (serve_request build_items (Some ''Heal Potion'') (scenario 25))"
proof -
  obtain st where ps: "pipeline_start wants_heal_potion empty_state
      = AwaitPurchase (Some ''Heal Potion'') ''One heal potion, please'' st"
    by (simp add: pipeline_start_def wants_heal_potion_def empty_state_def graph_start_def
          classify_intent_def add_user_message_def route_intent_def truthy_def strip_def isspace_def Let_def)
  obtain g' outcome where sr: "serve_request build_items (Some ''Heal Potion'') (scenario 25) = (g', outcome)"
    by (cases "serve_request build_items (Some ''Heal Potion'') (scenario 25)")
  have tc: "trade_chain wants_heal_potion (messages st) (message outcome) = Inl (ServiceError ''Connection error.'')"
    by (simp add: wants_heal_potion_def)
  from trade_outcome_not_reported[OF ps sr tc] ps sr tc show ?thesis
    by simp
qed

text \<open>
  Claim C4 as stated fails: the Heal Potion is bought (gold 25 to 5, stock 3 to 2) and the
  caller of the pipeline receives a result without an assistant result, so without the
  outcome of the purchase.
\<close>

theorem trade_outcome_counterexample:
  "pipeline_start wants_heal_potion empty_state
     = AwaitPurchase (Some ''Heal Potion'') ''One heal potion, please''
         \<lparr> messages = [Human ''One heal potion, please''], user_input = ''One heal potion, please'',
           st_intent = Some Trade, candidate_item = Some ''Heal Potion'', response_text = None,
           trade_result = None \<rparr>
   \<and> snd (serve_request build_items (Some ''Heal Potion'') (scenario 25))
       = \<lparr> success = True, item_name = Some ''Heal Potion'',
           message = ''Bought Heal Potion for 20g.'', price_paid = Some 20 \<rparr>
   \<and> gold (the_player (scenario 25)) = 25
   \<and> gold (the_player (fst (capture_and_process build_items wants_heal_potion empty_state (scenario 25)))) = 5
   \<and> merchant_stock (fst (capture_and_process build_items wants_heal_potion empty_state (scenario 25)))
        ''Heal Potion'' = Some 2
   \<and> snd (capture_and_process build_items wants_heal_potion empty_state (scenario 25))
       = \<lparr> r_transcript = None, r_assistant = None, r_audio_path = None,
           r_error = Some ''Voice interaction failed: Connection error.'' \<rparr>"
  by code_simp

text \<open>
  Claim C5, as amended. When the reply text is not empty and the speech synthesis raises,
  the result of the task is the error result: it carries the error text only, without
  transcript, reply or audio. This holds for a reply of the smalltalk and the fallback node
  and for the reply after a purchase.
\<close>

theorem synthesis_failure_discards_reply:
  assumes "ar_text ar \<noteq> []" and "synthesize svc (ar_text ar) = Inl e"
  shows "finish_task svc transcript ar = task_failed e
         \<and> r_transcript (task_failed e) = None
         \<and> r_assistant (task_failed e) = None
         \<and> r_audio_path (task_failed e) = None
         \<and> r_error (task_failed e) =
             Some (case e of RecordingError m \<Rightarrow> m | _ \<Rightarrow> ''Voice interaction failed: '' @ exn_str e)
         \<and> (record_and_transcribe svc = Inr transcript \<and> strip transcript \<noteq> []
              \<and> graph_start svc (checkpoint\<lparr>user_input := transcript\<rparr>) = Returned st
              \<and> assistant_result st = ar
            \<longrightarrow> capture_and_process items svc checkpoint g = (g, task_failed e))
         \<and> (pipeline_start svc checkpoint = AwaitPurchase candidate transcript st
              \<and> serve_request items candidate g = (g', outcome)
              \<and> respond_trade_after svc st outcome = Inr st'
              \<and> assistant_result st' = ar
            \<longrightarrow> capture_and_process items svc checkpoint g = (g', task_failed e))"
proof -
  have f: "finish_task svc transcript ar = task_failed e"
    using assms by (simp add: finish_task_def)
  have fields: "r_transcript (task_failed e) = None \<and> r_assistant (task_failed e) = None
         \<and> r_audio_path (task_failed e) = None
         \<and> r_error (task_failed e) =
             Some (case e of RecordingError m \<Rightarrow> m | _ \<Rightarrow> ''Voice interaction failed: '' @ exn_str e)"
    by (cases e) (simp_all add: task_failed_def)
  have a: "capture_and_process items svc checkpoint g = (g, task_failed e)"
    if "record_and_transcribe svc = Inr transcript" "strip transcript \<noteq> []"
      "graph_start svc (checkpoint\<lparr>user_input := transcript\<rparr>) = Returned st" "assistant_result st = ar"
    using that f by (simp add: capture_and_process_def pipeline_start_def)
  have b: "capture_and_process items svc checkpoint g = (g', task_failed e)"
    if "pipeline_start svc checkpoint = AwaitPurchase candidate transcript st"
      "serve_request items candidate g = (g', outcome)"
      "respond_trade_after svc st outcome = Inr st'" "assistant_result st' = ar"
    using that f by (simp add: capture_and_process_def pipeline_resume_def)
  from f fields a b show ?thesis by blast
qed

text \<open>The theorem at the greeting, the speech synthesis being down.\<close>

theorem synthesis_failure_discards_reply_witness:
  "ar_text \<lparr> ar_intent = Smalltalk, ar_text = ''Good day to you!'', ar_candidate_item = None,
             ar_trade_result = None \<rparr> \<noteq> []
   \<and> synthesize says_hello ''Good day to you!'' = Inl (ServiceError ''TTS unavailable'')
   \<and> finish_task says_hello ''Hello Mira''
        \<lparr> ar_intent = Smalltalk, ar_text = ''Good day to you!'', ar_candidate_item = None,
          ar_trade_result = None \<rparr>
       = task_failed (ServiceError ''TTS unavailable'')
   \<and> r_assistant (task_failed (ServiceError ''TTS unavailable'')) = None"
proof -
  let ?ar = "\<lparr> ar_intent = Smalltalk, ar_text = ''Good day to you!'', ar_candidate_item = None,
             ar_trade_result = None \<rparr>"
  have a: "ar_text ?ar \<noteq> []" by simp
  have b: "synthesize says_hello (ar_text ?ar) = Inl (ServiceError ''TTS unavailable'')"
    by code_simp
  from synthesis_failure_discards_reply[OF a b, of "''Hello Mira''"] a b show ?thesis
    by simp
qed

text \<open>
  Claim C5 as stated fails: the graph produced the reply \<open>Good day to you!\<close>, the speech
  synthesis raised, and the result of the task has neither transcript nor reply; the
  channel logs the error as its only new line.
\<close>

theorem synthesis_failure_counterexample:
  "graph_start says_hello (empty_state\<lparr>user_input := ''Hello Mira''\<rparr>)
     = Returned \<lparr> messages = [Human ''Hello Mira'', Assistant ''Good day to you!''],
                  user_input = ''Hello Mira'', st_intent = Some Smalltalk, candidate_item = None,
                  response_text = Some ''Good day to you!'', trade_result = None \<rparr>
   \<and> synthesize says_hello ''Good day to you!'' = Inl (ServiceError ''TTS unavailable'')
   \<and> snd (capture_and_process build_items says_hello empty_state (scenario 25))
       = \<lparr> r_transcript = None, r_assistant = None, r_audio_path = None,
           r_error = Some ''Voice interaction failed: TTS unavailable'' \<rparr>
   \<and> ch_log (handle_task_result mixer_ok
        (snd (capture_and_process build_items says_hello empty_state (scenario 25)))
        (fst hero_recording))
       = [(''Mira'', ''Welcome, Hero! Tell me what you need or feel free to chat.''),
          (''System'', ''Voice interaction failed: TTS unavailable'')]"
  by code_simp

section \<open>The purchase queue under both threads\<close>

lemma start_listening_frame:
  "ch_purchase_requests (fst (start_listening (c, h))) = ch_purchase_requests c
   \<and> event_sets (snd (start_listening (c, h))) = event_sets h
   \<and> next_request (snd (start_listening (c, h))) = next_request h"
  by (simp add: start_listening_def)

lemma reset_conversation_frame:
  "ch_purchase_requests (reset_conversation c) = ch_purchase_requests c"
  by (simp add: reset_conversation_def append_log_fields)

lemma handle_keys_frame:
  "ch_purchase_requests (fst (handle_keys events ch)) = ch_purchase_requests (fst ch)
   \<and> event_sets (snd (handle_keys events ch)) = event_sets (snd ch)
   \<and> next_request (snd (handle_keys events ch)) = next_request (snd ch)"
proof (induction events ch rule: handle_keys.induct)
  case (1 ch)
  then show ?case by simp
next
  case (2 ks ch)
  then show ?case using start_listening_frame[of "fst ch" "snd ch"] by simp
next
  case (3 ks ch)
  then show ?case by (simp add: reset_conversation_frame)
next
  case (4 ks ch)
  then show ?case by simp
qed

lemma handle_input_frame:
  "ch_purchase_requests (fst (handle_input events ch)) = ch_purchase_requests (fst ch)
   \<and> event_sets (snd (handle_input events ch)) = event_sets (snd ch)
   \<and> next_request (snd (handle_input events ch)) = next_request (snd ch)"
  by (simp add: handle_input_def handle_keys_frame)

lemma poll_future_frame:
  "ch_purchase_requests (fst (poll_future sl (c, h))) = ch_purchase_requests c
   \<and> snd (poll_future sl (c, h)) = h"
  by (auto simp: poll_future_def handle_task_result_fields split: option.splits future_state.splits)

lemma bridge_inv_initial: "bridge_inv (initial engine_ok assistant_ok visitor failure_text g)"
  by (simp add: bridge_inv_def initial_def new_heap_def new_channel_def append_log_fields Let_def)

lemma bridge_inv_exec:
  assumes "bridge_inv s" and "exec items a s = Some s'"
  shows "bridge_inv s'"
proof (cases a)
  case (Input events)
  with assms(2) have s': "s' = s\<lparr>sys_chan := fst (handle_input events (sys_chan s, sys_heap s)),
                                sys_heap := snd (handle_input events (sys_chan s, sys_heap s))\<rparr>"
    by (auto split: prod.splits if_splits)
  show ?thesis
    using assms(1) handle_input_frame[of events "(sys_chan s, sys_heap s)"]
    unfolding s' bridge_inv_def by (auto split: worker.splits)
next
  case Drain
  show ?thesis
  proof (cases "ch_purchase_requests (sys_chan s)")
    case Nil
    with assms Drain show ?thesis
      by (auto simp: bridge_inv_def process_purchase_requests_def split: worker.splits if_splits)
  next
    case (Cons rq q)
    with assms(1) obtain f rid svc transcript st where
      w: "sys_worker s = WBlocked f rid svc transcript st"
      by (cases "sys_worker s") (auto simp: bridge_inv_def)
    with assms(1) Cons obtain candidate where
      q: "ch_purchase_requests (sys_chan s) = [\<lparr>req_item = candidate, req_id = rid\<rparr>]"
      and lt: "rid < next_request (sys_heap s)"
      and fresh: "\<forall>r. next_request (sys_heap s) \<le> r \<longrightarrow> event_sets (sys_heap s) r = 0"
      by (auto simp: bridge_inv_def)
    from assms(2) Drain q w lt fresh show ?thesis
      by (auto simp: bridge_inv_def process_purchase_requests_def split: prod.splits if_splits)
  qed
next
  case (Poll sl)
  with assms(2) have s': "s' = s\<lparr>sys_chan := fst (poll_future sl (sys_chan s, sys_heap s)),
                                sys_heap := snd (poll_future sl (sys_chan s, sys_heap s))\<rparr>"
    by (auto split: prod.splits if_splits)
  show ?thesis
    using assms(1) poll_future_frame[of sl "sys_chan s" "sys_heap s"]
    unfolding s' bridge_inv_def by (auto split: worker.splits)
next
  case (Close reset_returns)
  with assms show ?thesis
    by (auto simp: bridge_inv_def close_def Let_def split: worker.splits if_splits option.splits)
next
  case (MainLoop change)
  with assms show ?thesis
    by (auto simp: bridge_inv_def split: worker.splits)
next
  case Pickup
  with assms show ?thesis
    by (auto simp: bridge_inv_def split: worker.splits list.splits)
next
  case (Run svc checkpoint)
  with assms show ?thesis
    by (auto simp: bridge_inv_def Let_def split: worker.splits pending.splits)
next
  case Resume
  with assms show ?thesis
    by (auto simp: bridge_inv_def split: worker.splits option.splits if_splits)
qed

lemma reachable_bridge_inv: "reachable items s \<Longrightarrow> bridge_inv s"
  by (induction rule: reachable.induct) (auto intro: bridge_inv_initial bridge_inv_exec)

lemma reachable_run: "reachable items s \<Longrightarrow> run items as s = Some s' \<Longrightarrow> reachable items s'"
proof (induction as arbitrary: s)
  case Nil
  then show ?case by simp
next
  case (Cons a as)
  then show ?case
    by (auto split: option.splits intro: reachable_exec)
qed

text \<open>
  Claim C2. In every state the two threads can reach, the purchase queue holds at most one
  request; whenever the worker runs a task that may still call the purchase handler, the
  queue is empty, so a request is never queued behind another; and every action leads to a
  state with at most one request again.
\<close>

theorem single_pending_request:
  assumes "reachable items s"
  shows "length (ch_purchase_requests (sys_chan s)) \<le> 1
         \<and> (\<forall>f. sys_worker s = WRunning f \<longrightarrow> ch_purchase_requests (sys_chan s) = [])
         \<and> (\<forall>a s'. exec items a s = Some s' \<longrightarrow> length (ch_purchase_requests (sys_chan s')) \<le> 1)"
proof -
  have len: "length (ch_purchase_requests (sys_chan t)) \<le> 1" if "bridge_inv t" for t
    using that by (auto simp: bridge_inv_def split: worker.splits)
  have i: "bridge_inv s" using assms by (rule reachable_bridge_inv)
  have "ch_purchase_requests (sys_chan s) = []" if "sys_worker s = WRunning f" for f
    using i that by (simp add: bridge_inv_def)
  moreover have "length (ch_purchase_requests (sys_chan s')) \<le> 1" if "exec items a s = Some s'" for a s'
    using bridge_inv_exec[OF i that] by (rule len)
  ultimately show ?thesis using len[OF i] by blast
qed

text \<open>
  The theorem at a reachable state that holds a request: Hero presses the space bar, the
  worker picks the task up and asks for a Heal Potion.
\<close>

theorem single_pending_request_witness:
  "\<exists>s. run build_items [Input [K_SPACE], Pickup, Run wants_heal_potion empty_state]
          (initial True True (Some ''Hero'') [] (scenario 25)) = Some s
       \<and> reachable build_items s
       \<and> map req_item (ch_purchase_requests (sys_chan s)) = [Some ''Heal Potion'']
       \<and> length (ch_purchase_requests (sys_chan s)) \<le> 1"
proof -
  have "case run build_items [Input [K_SPACE], Pickup, Run wants_heal_potion empty_state]
          (initial True True (Some ''Hero'') [] (scenario 25)) of
          None \<Rightarrow> False
        | Some s \<Rightarrow> map req_item (ch_purchase_requests (sys_chan s)) = [Some ''Heal Potion'']"
    by code_simp
  then obtain s where r: "run build_items [Input [K_SPACE], Pickup, Run wants_heal_potion empty_state]
          (initial True True (Some ''Hero'') [] (scenario 25)) = Some s"
    and q: "map req_item (ch_purchase_requests (sys_chan s)) = [Some ''Heal Potion'']"
    by (auto split: option.splits)
  have re: "reachable build_items s"
    using reachable_initial r by (rule reachable_run)
  have "length (ch_purchase_requests (sys_chan s)) \<le> 1"
    using single_pending_request[OF re] by (rule conjunct1)
  with r re q show ?thesis by (intro exI[of _ s]) simp
qed


lemma start_listening_futures:
  "futures (snd (start_listening (c, h))) f = futures h f
   \<or> futures (snd (start_listening (c, h))) f = FPending"
  by (simp add: start_listening_def)

lemma handle_keys_futures:
  "futures (snd (handle_keys events ch)) f = futures (snd ch) f
   \<or> futures (snd (handle_keys events ch)) f = FPending"
proof (induction events ch rule: handle_keys.induct)
  case (1 ch)
  then show ?case by simp
next
  case (2 ks ch)
  then show ?case using start_listening_futures[of "fst ch" "snd ch" f] by auto
next
  case (3 ks ch)
  then show ?case by simp
next
  case (4 ks ch)
  then show ?case by simp
qed

lemma handle_input_futures:
  "futures (snd (handle_input events ch)) f = futures (snd ch) f
   \<or> futures (snd (handle_input events ch)) f = FPending"
  using handle_keys_futures[of events ch f] by (simp add: handle_input_def)

lemma drain_futures: "futures (snd (drain items q (g, h))) = futures h"
  by (induction q arbitrary: g h) (auto split: prod.splits)

lemma close_futures:
  "futures (snd (close (c, h))) f = futures h f \<or> futures (snd (close (c, h))) f = FCancelled"
  by (auto simp: close_def cancel_def Let_def split: option.splits future_state.splits)

lemma futures_inv_initial: "futures_inv (initial engine_ok assistant_ok visitor failure_text g)"
  by (simp add: futures_inv_def initial_def new_heap_def)

lemma futures_inv_exec:
  assumes "futures_inv s" and "exec items a s = Some s'"
  shows "futures_inv s'"
proof (cases a)
  case (Input events)
  with assms(2) have s': "s' = s\<lparr>sys_chan := fst (handle_input events (sys_chan s, sys_heap s)),
                                sys_heap := snd (handle_input events (sys_chan s, sys_heap s))\<rparr>"
    by (auto split: prod.splits if_splits)
  show ?thesis
    unfolding futures_inv_def
  proof (intro allI)
    fix f
    have d: "futures (sys_heap s') f = futures (sys_heap s) f \<or> futures (sys_heap s') f = FPending"
      using handle_input_futures[of events "(sys_chan s, sys_heap s)" f] unfolding s' by simp
    have c: "sys_closed s' = sys_closed s" unfolding s' by simp
    from assms(1) have a: "\<forall>e. futures (sys_heap s) f \<noteq> FRaised e"
      and b: "futures (sys_heap s) f = FCancelled \<longrightarrow> sys_closed s"
      by (auto simp: futures_inv_def)
    from d show "(\<forall>e. futures (sys_heap s') f \<noteq> FRaised e) \<and> (futures (sys_heap s') f = FCancelled \<longrightarrow> sys_closed s')"
    proof
      assume "futures (sys_heap s') f = futures (sys_heap s) f"
      with a b c show ?thesis by simp
    next
      assume "futures (sys_heap s') f = FPending"
      then show ?thesis by simp
    qed
  qed
next
  case Drain
  with assms(2) have s': "sys_heap s' = snd (drain items (ch_purchase_requests (sys_chan s)) (sys_game s, sys_heap s))"
    and c: "sys_closed s' = sys_closed s"
    by (auto simp: process_purchase_requests_def split: prod.splits if_splits)
  show ?thesis
    using assms(1) unfolding futures_inv_def s' c drain_futures by simp
next
  case (Poll sl)
  with assms(2) have "sys_heap s' = sys_heap s" and "sys_closed s' = sys_closed s"
    using poll_future_frame[of sl "sys_chan s" "sys_heap s"]
    by (auto split: prod.splits if_splits)
  with assms(1) show ?thesis by (simp add: futures_inv_def)
next
  case (Close reset_returns)
  show ?thesis
  proof (cases reset_returns)
    case True
    with assms(2) Close have h: "sys_heap s' = snd (close (sys_chan s, sys_heap s))" and c: "sys_closed s'"
      by (auto split: prod.splits if_splits)
    show ?thesis
      unfolding futures_inv_def
    proof (intro allI)
      fix f
      have d: "futures (sys_heap s') f = futures (sys_heap s) f \<or> futures (sys_heap s') f = FCancelled"
        using close_futures[of "sys_chan s" "sys_heap s" f] unfolding h by simp
      from assms(1) have a: "\<forall>e. futures (sys_heap s) f \<noteq> FRaised e"
        by (auto simp: futures_inv_def)
      from d show "(\<forall>e. futures (sys_heap s') f \<noteq> FRaised e) \<and> (futures (sys_heap s') f = FCancelled \<longrightarrow> sys_closed s')"
      proof
        assume "futures (sys_heap s') f = futures (sys_heap s) f"
        with a c show ?thesis by simp
      next
        assume "futures (sys_heap s') f = FCancelled"
        with c show ?thesis by simp
      qed
    qed
  next
    case False
    with assms Close show ?thesis
      by (auto simp: futures_inv_def split: if_splits)
  qed
next
  case (MainLoop change)
  with assms show ?thesis by (auto simp: futures_inv_def)
next
  case Pickup
  with assms show ?thesis
    by (auto simp: futures_inv_def split: worker.splits list.splits if_splits)
next
  case (Run svc checkpoint)
  with assms show ?thesis
    by (auto simp: futures_inv_def Let_def split: worker.splits pending.splits if_splits)
next
  case Resume
  with assms show ?thesis
    by (auto simp: futures_inv_def split: worker.splits option.splits if_splits)
qed

lemma reachable_futures_inv: "reachable items s \<Longrightarrow> futures_inv s"
  by (induction rule: reachable.induct) (auto intro: futures_inv_initial futures_inv_exec)

text \<open>
  Claim C9, as amended. Every failure inside the task is returned as a result whose error
  field is set, and no future of a reachable state has raised. So when the task of an open
  channel has completed, with an error or without, its future has returned a result, and
  the poll takes the channel (from Recording) to Idle with the status
  \<open>Press Space to talk\<close> and drops the future; when the error field of the result is
  set, the error is kept as the error message and logged as a line of System. Only a future
  that raised would take the channel to the Error state, with the status \<open>Voice error\<close>.
\<close>

theorem poll_after_task_error:
  "(reachable items s \<and> \<not> sys_closed s \<and> ch_current_future (sys_chan s) = Some f
      \<and> future_done (futures (sys_heap s) f) \<longrightarrow>
      (\<exists>r s'. futures (sys_heap s) f = FReturned r \<and> exec items (Poll sl) s = Some s'
          \<and> ch_state (sys_chan s') = Idle
          \<and> ch_status_text (sys_chan s') = ''Press Space to talk''
          \<and> ch_current_future (sys_chan s') = None
          \<and> (truthy (r_error r) \<longrightarrow>
               sys_chan s' =
                 (append_log ''System'' (r_error r)
                    ((sys_chan s)\<lparr>ch_state := Idle, ch_status_text := ''Press Space to talk'',
                                   ch_error_message := r_error r\<rparr>))\<lparr>ch_current_future := None\<rparr>)))
   \<and> (ch_current_future c = Some f \<and> futures h f = FRaised exc \<longrightarrow>
        fst (poll_future sl (c, h)) =
          c\<lparr>ch_state := Error, ch_status_text := ''Voice error'',
             ch_error_message := Some (exn_str exc), ch_current_future := None\<rparr>)
   \<and> (\<exists>m. task_failed e = \<lparr> r_transcript = None, r_assistant = None, r_audio_path = None, r_error = Some m \<rparr>)"
proof -
  have tf: "\<exists>m. task_failed e = \<lparr> r_transcript = None, r_assistant = None, r_audio_path = None, r_error = Some m \<rparr>"
    by (cases e) (simp_all add: task_failed_def)
  have raised: "fst (poll_future sl (c, h)) =
              c\<lparr>ch_state := Error, ch_status_text := ''Voice error'',
                 ch_error_message := Some (exn_str exc), ch_current_future := None\<rparr>"
    if "ch_current_future c = Some f" "futures h f = FRaised exc"
    using that by (simp add: poll_future_def future_done_def)
  have reach: "\<exists>r s'. futures (sys_heap s) f = FReturned r \<and> exec items (Poll sl) s = Some s'
          \<and> ch_state (sys_chan s') = Idle
          \<and> ch_status_text (sys_chan s') = ''Press Space to talk''
          \<and> ch_current_future (sys_chan s') = None
          \<and> (truthy (r_error r) \<longrightarrow>
               sys_chan s' =
                 (append_log ''System'' (r_error r)
                    ((sys_chan s)\<lparr>ch_state := Idle, ch_status_text := ''Press Space to talk'',
                                   ch_error_message := r_error r\<rparr>))\<lparr>ch_current_future := None\<rparr>)"
    if re: "reachable items s" and op: "\<not> sys_closed s" and cf: "ch_current_future (sys_chan s) = Some f"
      and dn: "future_done (futures (sys_heap s) f)"
  proof -
    from reachable_futures_inv[OF re] op have "\<forall>e. futures (sys_heap s) f \<noteq> FRaised e"
      and "futures (sys_heap s) f \<noteq> FCancelled"
      by (auto simp: futures_inv_def)
    with dn obtain r where r: "futures (sys_heap s) f = FReturned r"
      by (cases "futures (sys_heap s) f") (auto simp: future_done_def)
    have p: "poll_future sl (sys_chan s, sys_heap s)
               = ((handle_task_result sl r (sys_chan s))\<lparr>ch_current_future := None\<rparr>, sys_heap s)"
      using cf r by (simp add: poll_future_def future_done_def)
    have err: "handle_task_result sl r (sys_chan s) =
               append_log ''System'' (r_error r)
                 ((sys_chan s)\<lparr>ch_state := Idle, ch_status_text := ''Press Space to talk'', ch_error_message := r_error r\<rparr>)"
      if "truthy (r_error r)"
      using that by (simp add: handle_task_result_def)
    from op p have "exec items (Poll sl) s
        = Some (s\<lparr>sys_chan := (handle_task_result sl r (sys_chan s))\<lparr>ch_current_future := None\<rparr>,
                   sys_heap := sys_heap s\<rparr>)"
      by simp
    with r err show ?thesis
      by (auto simp: handle_task_result_fields)
  qed
  from tf raised reach show ?thesis by blast
qed

text \<open>
  The theorem at a reachable state: Hero presses the space bar, the worker picks the task
  up, the recorder fails. The channel is recording, the future has returned the error
  result, and the poll takes the channel to Idle.
\<close>

theorem poll_after_task_error_witness:
  "\<exists>s. run build_items [Input [K_SPACE], Pickup, Run no_microphone empty_state]
          (initial True True (Some ''Hero'') [] (scenario 25)) = Some s
       \<and> reachable build_items s \<and> \<not> sys_closed s
       \<and> ch_state (sys_chan s) = Recording
       \<and> ch_current_future (sys_chan s) = Some 0
       \<and> future_of 0 s = FReturned (task_failed (RecordingError ''No input device''))
       \<and> (\<exists>s'. exec build_items (Poll mixer_ok) s = Some s' \<and> ch_state (sys_chan s') = Idle)"
proof -
  have "case run build_items [Input [K_SPACE], Pickup, Run no_microphone empty_state]
          (initial True True (Some ''Hero'') [] (scenario 25)) of
          None \<Rightarrow> False
        | Some s \<Rightarrow> \<not> sys_closed s \<and> ch_state (sys_chan s) = Recording
                    \<and> ch_current_future (sys_chan s) = Some 0
                    \<and> future_of 0 s = FReturned (task_failed (RecordingError ''No input device''))"
    by code_simp
  then obtain s where r: "run build_items [Input [K_SPACE], Pickup, Run no_microphone empty_state]
          (initial True True (Some ''Hero'') [] (scenario 25)) = Some s"
    and q: "\<not> sys_closed s" "ch_state (sys_chan s) = Recording" "ch_current_future (sys_chan s) = Some 0"
      "future_of 0 s = FReturned (task_failed (RecordingError ''No input device''))"
    by (auto split: option.splits)
  have re: "reachable build_items s"
    using reachable_initial r by (rule reachable_run)
  have dn: "future_done (futures (sys_heap s) 0)"
    using q(4) by (simp add: future_of_def future_done_def)
  from poll_after_task_error[of build_items s 0 mixer_ok] re q(1,3) dn
  have "\<exists>s'. exec build_items (Poll mixer_ok) s = Some s' \<and> ch_state (sys_chan s') = Idle"
    by blast
  with r re q show ?thesis by (intro exI[of _ s]) simp
qed


text \<open>
  Claim C9 as stated fails: a task that cannot record completes with the error
  \<open>No input device\<close>, and the poll takes the channel from Recording to Idle.
\<close>

theorem task_error_counterexample:
  "map_option (ch_state \<circ> sys_chan)
     (run build_items [Input [K_SPACE], Pickup, Run no_microphone empty_state]
        (initial True True (Some ''Hero'') [] (scenario 25)))
   = Some Recording
   \<and> map_option (future_of 0)
     (run build_items [Input [K_SPACE], Pickup, Run no_microphone empty_state]
        (initial True True (Some ''Hero'') [] (scenario 25)))
   = Some (FReturned \<lparr> r_transcript = None, r_assistant = None, r_audio_path = None,
                       r_error = Some ''No input device'' \<rparr>)
   \<and> map_option (ch_state \<circ> sys_chan)
     (run build_items [Input [K_SPACE], Pickup, Run no_microphone empty_state, Poll mixer_ok]
        (initial True True (Some ''Hero'') [] (scenario 25)))
   = Some Idle
   \<and> map_option (ch_log \<circ> sys_chan)
     (run build_items [Input [K_SPACE], Pickup, Run no_microphone empty_state, Poll mixer_ok]
        (initial True True (Some ''Hero'') [] (scenario 25)))
   = Some [(''Mira'', ''Welcome, Hero! Tell me what you need or feel free to chat.''),
           (''System'', ''No input device'')]"
  by code_simp

end
